theory Spec2Isabelle
  imports Complex_Main "HOL-Library.Multiset"
begin

section \<open>The risk simulator: \<^verbatim>\<open>src/app/api/simular/route.ts\<close>\<close>

text \<open>
  The route handler \<^verbatim>\<open>POST\<close> validates four numeric fields of a JSON body, simulates
  price paths of a geometric Brownian motion, and returns per-step statistics and a
  value at risk.

  Numbers. A JavaScript number is modelled as \<open>jsnum\<close>: a real number, or one of the
  three special values \<^verbatim>\<open>NaN\<close>, \<^verbatim>\<open>Infinity\<close>, \<^verbatim>\<open>-Infinity\<close>. Arithmetic on finite
  numbers is exact real arithmetic, without the rounding, overflow and underflow of IEEE
  doubles, except in \<open>mean\<close>: the value of a sum of doubles depends on the order of its
  additions, so the additions and the division of \<open>mean\<close> round as binary64 arithmetic
  does (\<open>to_double\<close>).
\<close>

subsection \<open>JavaScript values\<close>

datatype jsnum = Fin real | NaN | PosInf | NegInf

text \<open>The relational operators \<^verbatim>\<open><\<close> and \<^verbatim>\<open><=\<close>: every comparison with \<^verbatim>\<open>NaN\<close> is false.\<close>

fun js_lt :: "jsnum \<Rightarrow> jsnum \<Rightarrow> bool" where
  "js_lt NaN _ = False"
| "js_lt _ NaN = False"
| "js_lt (Fin a) (Fin b) = (a < b)"
| "js_lt _ NegInf = False"
| "js_lt PosInf _ = False"
| "js_lt NegInf _ = True"
| "js_lt (Fin a) PosInf = True"

fun js_le :: "jsnum \<Rightarrow> jsnum \<Rightarrow> bool" where
  "js_le NaN _ = False"
| "js_le _ NaN = False"
| "js_le (Fin a) (Fin b) = (a \<le> b)"
| "js_le NegInf _ = True"
| "js_le _ PosInf = True"
| "js_le PosInf _ = False"
| "js_le (Fin a) NegInf = False"

definition js_gt :: "jsnum \<Rightarrow> jsnum \<Rightarrow> bool" where
  "js_gt a b = js_lt b a"

text \<open>Multiplication, addition, division and \<^verbatim>\<open>Math.abs\<close>, with the special values.\<close>

fun js_mul :: "jsnum \<Rightarrow> jsnum \<Rightarrow> jsnum" where
  "js_mul NaN _ = NaN"
| "js_mul _ NaN = NaN"
| "js_mul (Fin a) (Fin b) = Fin (a * b)"
| "js_mul (Fin a) PosInf = (if a = 0 then NaN else if 0 < a then PosInf else NegInf)"
| "js_mul (Fin a) NegInf = (if a = 0 then NaN else if 0 < a then NegInf else PosInf)"
| "js_mul PosInf (Fin b) = (if b = 0 then NaN else if 0 < b then PosInf else NegInf)"
| "js_mul NegInf (Fin b) = (if b = 0 then NaN else if 0 < b then NegInf else PosInf)"
| "js_mul PosInf PosInf = PosInf"
| "js_mul PosInf NegInf = NegInf"
| "js_mul NegInf PosInf = NegInf"
| "js_mul NegInf NegInf = PosInf"

fun js_add :: "jsnum \<Rightarrow> jsnum \<Rightarrow> jsnum" where
  "js_add NaN _ = NaN"
| "js_add _ NaN = NaN"
| "js_add (Fin a) (Fin b) = Fin (a + b)"
| "js_add PosInf NegInf = NaN"
| "js_add NegInf PosInf = NaN"
| "js_add PosInf _ = PosInf"
| "js_add NegInf _ = NegInf"
| "js_add (Fin a) PosInf = PosInf"
| "js_add (Fin a) NegInf = NegInf"

text \<open>
  Rounding to binary64, to nearest with ties to even. Around \<open>x\<close> with
  \<open>2^e \<le> \<bar>x\<bar> < 2^(e + 1)\<close> the doubles are the multiples of \<open>2^(e - 52)\<close> (53 significant
  bits); below \<open>2^(-1022)\<close> they are the multiples of \<open>2^(-1074)\<close> (subnormal numbers). A
  rounded magnitude of \<open>2^1024\<close> or more overflows to an infinity.
\<close>

definition round_half_even :: "real \<Rightarrow> int" where
  "round_half_even y =
     (let f = \<lfloor>y\<rfloor>; d = y - real_of_int f
      in if d < 1 / 2 then f else if 1 / 2 < d then f + 1 else if even f then f else f + 1)"

definition binary64_ulp :: "real \<Rightarrow> real" where
  "binary64_ulp x = 2 powr real_of_int (max \<lfloor>log 2 \<bar>x\<bar>\<rfloor> (- 1022) - 52)"

definition to_double :: "real \<Rightarrow> jsnum" where
  "to_double x =
     (if x = 0 then Fin 0
      else
        let u = binary64_ulp x;
            r = real_of_int (round_half_even (x / u)) * u
        in if 2 ^ 1024 \<le> \<bar>r\<bar> then (if 0 < x then PosInf else NegInf) else Fin r)"

text \<open>
  The addition \<^verbatim>\<open>a + b\<close> of doubles: the exact sum, rounded. The division of a number by
  the length of an array: \<^verbatim>\<open>0/0\<close> is \<^verbatim>\<open>NaN\<close>, a non-zero number over zero is an infinity,
  and a finite quotient is rounded.
\<close>

definition js_add_double :: "jsnum \<Rightarrow> jsnum \<Rightarrow> jsnum" where
  "js_add_double a b = (case js_add a b of Fin x \<Rightarrow> to_double x | r \<Rightarrow> r)"

definition js_div_length :: "jsnum \<Rightarrow> nat \<Rightarrow> jsnum" where
  "js_div_length a n =
     (case a of
        Fin x \<Rightarrow>
          if n = 0 then (if x = 0 then NaN else if 0 < x then PosInf else NegInf)
          else to_double (x / real n)
      | NaN \<Rightarrow> NaN
      | PosInf \<Rightarrow> PosInf
      | NegInf \<Rightarrow> NegInf)"

fun js_abs :: "jsnum \<Rightarrow> jsnum" where
  "js_abs (Fin a) = Fin \<bar>a\<bar>"
| "js_abs NaN = NaN"
| "js_abs PosInf = PosInf"
| "js_abs NegInf = PosInf"

text \<open>
  Reading an array of numbers at an index yields a number or \<^verbatim>\<open>undefined\<close> (out of
  range: JavaScript does not raise). \<open>ToNumber\<close> is the conversion the arithmetic
  operators apply: \<^verbatim>\<open>undefined\<close> becomes \<^verbatim>\<open>NaN\<close>.
\<close>

datatype js_value = Undefined | Number jsnum

fun ToNumber :: "js_value \<Rightarrow> jsnum" where
  "ToNumber Undefined = NaN"
| "ToNumber (Number x) = x"

definition array_get :: "real list \<Rightarrow> int \<Rightarrow> js_value" where
  "array_get xs i = (if 0 \<le> i \<and> i < int (length xs) then Number (Fin (xs ! nat i)) else Undefined)"

subsection \<open>The request body and its validation (lines 38 to 80)\<close>

text \<open>
  A field of the parsed body is any JSON value, or absent. \<open>typeof\<close> is JavaScript's
  operator on these values.
\<close>

datatype json = Absent | JNull | JBool bool | JNumber jsnum | JString string | JArray | JObject

fun typeof :: "json \<Rightarrow> string" where
  "typeof Absent = ''undefined''"
| "typeof JNull = ''object''"
| "typeof (JBool b) = ''boolean''"
| "typeof (JNumber x) = ''number''"
| "typeof (JString s) = ''string''"
| "typeof JArray = ''object''"
| "typeof JObject = ''object''"

text \<open>The number held by a field; it is read only after the type check has passed.\<close>

fun number_of :: "json \<Rightarrow> jsnum" where
  "number_of (JNumber x) = x"
| "number_of _ = NaN"

record body =
  precio_actual :: json
  volatilidad :: json
  dias :: json
  simulaciones :: json

text \<open>
  The five rejections of status 400, in the order of the source. Their messages are
  \<^verbatim>\<open>Parametros invalidos\<close>, \<^verbatim>\<open>El precio actual debe ser mayor que 0\<close>,
  \<^verbatim>\<open>La volatilidad debe estar entre 0 y 200\<close>, \<^verbatim>\<open>Los dias deben estar entre 1 y 365\<close>
  and \<^verbatim>\<open>Las simulaciones deben estar entre 100 y 10000\<close>.
\<close>

datatype rejection =
  ParametrosInvalidos | PrecioInvalido | VolatilidadInvalida | DiasInvalidos | SimulacionesInvalidas

text \<open>
  The validation of lines 42 to 80: \<open>Inl\<close> is the early return with a rejection,
  \<open>Inr\<close> carries the four numbers with which control reaches line 82.
\<close>

definition validate :: "body \<Rightarrow> rejection + (jsnum \<times> jsnum \<times> jsnum \<times> jsnum)" where
  "validate b =
     (if typeof (precio_actual b) \<noteq> ''number'' \<or>
         typeof (volatilidad b) \<noteq> ''number'' \<or>
         typeof (dias b) \<noteq> ''number'' \<or>
         typeof (simulaciones b) \<noteq> ''number''
      then Inl ParametrosInvalidos
      else
        let precio = number_of (precio_actual b);
            vol = number_of (volatilidad b);
            d = number_of (dias b);
            sims = number_of (simulaciones b)
        in if js_le precio (Fin 0) then Inl PrecioInvalido
           else if js_lt vol (Fin 0) \<or> js_gt vol (Fin 200) then Inl VolatilidadInvalida
           else if js_lt d (Fin 1) \<or> js_gt d (Fin 365) then Inl DiasInvalidos
           else if js_lt sims (Fin 100) \<or> js_gt sims (Fin 10000) then Inl SimulacionesInvalidas
           else Inr (precio, vol, d, sims))"

subsection \<open>Mean and percentile (lines 19 to 34)\<close>

text \<open>
  \<^verbatim>\<open>values.reduce((sum, v) => sum + v, 0) / values.length\<close>: the additions run from left
  to right and each one rounds; for the empty array the result is \<^verbatim>\<open>0/0\<close>.
\<close>

definition mean :: "real list \<Rightarrow> jsnum" where
  "mean values =
     js_div_length (foldl (\<lambda>sum v. js_add_double sum (Fin v)) (Fin 0) values) (length values)"

text \<open>
  No addition of that sum rounds: starting from \<open>acc\<close>, every partial sum is a double.
\<close>

fun sums_exact :: "real \<Rightarrow> real list \<Rightarrow> bool" where
  "sums_exact acc [] = True"
| "sums_exact acc (v # vs) = (to_double (acc + v) = Fin (acc + v) \<and> sums_exact (acc + v) vs)"

text \<open>
  \<^verbatim>\<open>[...values].sort((a, b) => a - b)\<close> sorts a copy in ascending order; \<open>sort\<close> is
  that on the reals. The two reads \<^verbatim>\<open>sorted[lower]\<close> and \<^verbatim>\<open>sorted[upper]\<close> yield
  \<^verbatim>\<open>undefined\<close> outside the array, which the arithmetic of line 33 turns into \<^verbatim>\<open>NaN\<close>.
\<close>

definition percentile :: "real list \<Rightarrow> real \<Rightarrow> js_value" where
  "percentile values p =
     (if length values = 0 then Number NaN
      else
        let sorted = sort values;
            pos = (p / 100) * (real (length sorted) - 1);
            lower = \<lfloor>pos\<rfloor>;
            upper = \<lceil>pos\<rceil>
        in if lower = upper then array_get sorted lower
           else
             let weight = pos - real_of_int lower
             in Number (js_add (js_mul (ToNumber (array_get sorted lower)) (Fin (1 - weight)))
                               (js_mul (ToNumber (array_get sorted upper)) (Fin weight))))"

subsection \<open>The random source (lines 11 to 17)\<close>

text \<open>
  \<^verbatim>\<open>Math.random\<close> is a global generator. It is modelled by the sequence \<open>rnd\<close> of the
  values its successive calls return during one request, and the number \<open>k\<close> of calls
  made so far, which every draw returns updated. The generator returns values in
  \<open>[0, 1)\<close>; on such values \<open>ln\<close> and \<open>sqrt\<close> below are \<^verbatim>\<open>Math.log\<close> and \<^verbatim>\<open>Math.sqrt\<close>.

  \<^verbatim>\<open>while (u === 0) u = Math.random()\<close> does not return when the generator returns zero
  forever: the loop is a partial function, and not returning is the value \<open>None\<close>.
\<close>

type_synonym rng = "nat \<Rightarrow> real"

partial_function (option) redraw_while_zero :: "rng \<Rightarrow> real \<Rightarrow> nat \<Rightarrow> (real \<times> nat) option" where
  "redraw_while_zero rnd u k =
     (if u = 0 then redraw_while_zero rnd (rnd k) (Suc k) else Some (u, k))"

definition gaussianRandom :: "rng \<Rightarrow> nat \<Rightarrow> (real \<times> nat) option" where
  "gaussianRandom rnd k =
     (case redraw_while_zero rnd 0 k of
        None \<Rightarrow> None
      | Some (u, k1) \<Rightarrow>
          (case redraw_while_zero rnd 0 k1 of
             None \<Rightarrow> None
           | Some (v, k2) \<Rightarrow> Some (sqrt (- 2.0 * ln u) * cos (2.0 * pi * v), k2)))"

text \<open>The results of \<open>n\<close> successive calls of \<open>gaussianRandom\<close>, in call order.\<close>

fun draws :: "rng \<Rightarrow> nat \<Rightarrow> nat \<Rightarrow> (real list \<times> nat) option" where
  "draws rnd k 0 = Some ([], k)"
| "draws rnd k (Suc n) =
     (case gaussianRandom rnd k of
        None \<Rightarrow> None
      | Some (z, k1) \<Rightarrow>
          (case draws rnd k1 n of
             None \<Rightarrow> None
           | Some (zs, k2) \<Rightarrow> Some (z # zs, k2)))"

subsection \<open>The engine (lines 82 to 144)\<close>

text \<open>
  The exceptions the engine can raise; the \<^verbatim>\<open>catch\<close> of line 145 turns either into
  the response of status 500.
\<close>

datatype js_error = RangeError | TypeError

text \<open>
  \<^verbatim>\<open>Array(n)\<close> raises \<^verbatim>\<open>RangeError\<close> unless \<open>n\<close> is an integer in \<open>[0, 2^32)\<close>.
  \<^verbatim>\<open>Array.from({ length: n }, f)\<close> takes \<open>ToLength n\<close> (truncated, at least 0) as the
  number of rows and calls \<open>f\<close> once for each row; \<open>f\<close> is the same computation for
  every row, so its outcome is passed as a value.
\<close>

definition array_new :: "real \<Rightarrow> js_error + nat" where
  "array_new n =
     (if n = real_of_int \<lfloor>n\<rfloor> \<and> 0 \<le> n \<and> n < 2 ^ 32 then Inr (nat \<lfloor>n\<rfloor>) else Inl RangeError)"

definition ToLength :: "real \<Rightarrow> nat" where
  "ToLength x = nat (min \<lfloor>x\<rfloor> (2 ^ 53 - 1))"

definition array_from_length :: "real \<Rightarrow> js_error + 'a \<Rightarrow> js_error + 'a list" where
  "array_from_length n f =
     (let len = ToLength n
      in if 2 ^ 32 \<le> len then Inl RangeError
         else if len = 0 then Inr []
         else (case f of Inl e \<Rightarrow> Inl e | Inr row \<Rightarrow> Inr (replicate len row)))"

text \<open>
  The inner loop of lines 98 to 107, for one step \<open>paso\<close>: one draw for each trajectory,
  then the update of its cell. \<^verbatim>\<open>simulacionesArr[i]\<close> beyond the last row is
  \<^verbatim>\<open>undefined\<close>, and indexing that raises \<^verbatim>\<open>TypeError\<close>. Within a row the indices
  \<open>paso - 1\<close> and \<open>paso\<close> are in range whenever the engine runs this loop (lemma
  \<open>pasos_loop_run\<close> keeps the matrix rectangular), so \<open>!\<close> and list update are the
  array read and write.
\<close>

function trayectorias_loop ::
  "rng \<Rightarrow> real \<Rightarrow> real \<Rightarrow> real \<Rightarrow> real \<Rightarrow> nat \<Rightarrow> nat \<Rightarrow> real list list \<Rightarrow> nat
     \<Rightarrow> (js_error + real list list \<times> nat) option" where
  "trayectorias_loop rnd volDiaria deltaT tasaInteres numTrayectorias paso i arr k =
     (if real i < numTrayectorias then
        (case gaussianRandom rnd k of
           None \<Rightarrow> None
         | Some (ruido, k') \<Rightarrow>
             let exponencial = (tasaInteres - 0.5 * volDiaria * volDiaria) * deltaT;
                 gaussiano = volDiaria * sqrt deltaT * ruido
             in if i < length arr
                then trayectorias_loop rnd volDiaria deltaT tasaInteres numTrayectorias paso (Suc i)
                       (arr[i := (arr ! i)[paso := (arr ! i) ! (paso - 1) * exp (exponencial + gaussiano)]])
                       k'
                else Some (Inl TypeError))
      else Some (Inr (arr, k)))"
  by pat_completeness auto
termination
proof (relation "measure (\<lambda>(rnd, volDiaria, deltaT, tasaInteres, numTrayectorias, paso, i, arr, k).
                   nat \<lceil>numTrayectorias\<rceil> - i)")
  show "wf (measure (\<lambda>(rnd, volDiaria, deltaT, tasaInteres, numTrayectorias, paso, i, arr, k).
                   nat \<lceil>numTrayectorias\<rceil> - i))"
    by simp
next
  fix numTrayectorias :: real and i :: nat
  fix rnd :: rng and volDiaria deltaT tasaInteres :: real and paso k k' :: nat
  fix arr arr' :: "real list list"
  assume "real i < numTrayectorias"
  then have "int i < \<lceil>numTrayectorias\<rceil>" by (simp add: less_ceiling_iff)
  then have "i < nat \<lceil>numTrayectorias\<rceil>" by simp
  then show "((rnd, volDiaria, deltaT, tasaInteres, numTrayectorias, paso, Suc i, arr', k'),
              (rnd, volDiaria, deltaT, tasaInteres, numTrayectorias, paso, i, arr, k))
             \<in> measure (\<lambda>(rnd, volDiaria, deltaT, tasaInteres, numTrayectorias, paso, i, arr, k).
                   nat \<lceil>numTrayectorias\<rceil> - i)"
    by simp
qed

declare trayectorias_loop.simps [simp del]

text \<open>The outer loop of lines 97 to 108 over the steps.\<close>

function pasos_loop ::
  "rng \<Rightarrow> real \<Rightarrow> real \<Rightarrow> real \<Rightarrow> real \<Rightarrow> real \<Rightarrow> nat \<Rightarrow> real list list \<Rightarrow> nat
     \<Rightarrow> (js_error + real list list \<times> nat) option" where
  "pasos_loop rnd volDiaria deltaT tasaInteres pasosTiempo numTrayectorias paso arr k =
     (if real paso \<le> pasosTiempo then
        (case trayectorias_loop rnd volDiaria deltaT tasaInteres numTrayectorias paso 0 arr k of
           None \<Rightarrow> None
         | Some (Inl e) \<Rightarrow> Some (Inl e)
         | Some (Inr (arr', k')) \<Rightarrow>
             pasos_loop rnd volDiaria deltaT tasaInteres pasosTiempo numTrayectorias (Suc paso) arr' k')
      else Some (Inr (arr, k)))"
  by pat_completeness auto
termination
proof (relation "measure (\<lambda>(rnd, volDiaria, deltaT, tasaInteres, pasosTiempo, numTrayectorias, paso, arr, k).
                   nat (\<lfloor>pasosTiempo\<rfloor> + 1) - paso)")
  show "wf (measure (\<lambda>(rnd, volDiaria, deltaT, tasaInteres, pasosTiempo, numTrayectorias, paso, arr, k).
                   nat (\<lfloor>pasosTiempo\<rfloor> + 1) - paso))"
    by simp
next
  fix pasosTiempo :: real and paso :: nat
  fix rnd :: rng and volDiaria deltaT tasaInteres numTrayectorias :: real and k k' :: nat
  fix arr arr' :: "real list list"
  assume "real paso \<le> pasosTiempo"
  then have "int paso \<le> \<lfloor>pasosTiempo\<rfloor>" by (simp add: le_floor_iff)
  then have "paso < nat (\<lfloor>pasosTiempo\<rfloor> + 1)" by simp
  then show "((rnd, volDiaria, deltaT, tasaInteres, pasosTiempo, numTrayectorias, Suc paso, arr', k'),
              (rnd, volDiaria, deltaT, tasaInteres, pasosTiempo, numTrayectorias, paso, arr, k))
             \<in> measure (\<lambda>(rnd, volDiaria, deltaT, tasaInteres, pasosTiempo, numTrayectorias, paso, arr, k).
                   nat (\<lfloor>pasosTiempo\<rfloor> + 1) - paso)"
    by simp
qed

declare pasos_loop.simps [simp del]

text \<open>The statistics loop of lines 115 to 120; \<open>@\<close> is \<^verbatim>\<open>push\<close>.\<close>

function estadisticas_loop ::
  "real \<Rightarrow> real list list \<Rightarrow> nat \<Rightarrow> jsnum list \<Rightarrow> js_value list \<Rightarrow> js_value list
     \<Rightarrow> jsnum list \<times> js_value list \<times> js_value list" where
  "estadisticas_loop pasosTiempo simulacionesArr paso promedio percentil_5 percentil_95 =
     (if real paso \<le> pasosTiempo then
        let columna = map (\<lambda>fila. fila ! paso) simulacionesArr
        in estadisticas_loop pasosTiempo simulacionesArr (Suc paso)
             (promedio @ [mean columna])
             (percentil_5 @ [percentile columna 5])
             (percentil_95 @ [percentile columna 95])
      else (promedio, percentil_5, percentil_95))"
  by pat_completeness auto
termination
proof (relation "measure (\<lambda>(pasosTiempo, simulacionesArr, paso, promedio, percentil_5, percentil_95).
                   nat (\<lfloor>pasosTiempo\<rfloor> + 1) - paso)")
  show "wf (measure (\<lambda>(pasosTiempo, simulacionesArr, paso, promedio, percentil_5, percentil_95).
                   nat (\<lfloor>pasosTiempo\<rfloor> + 1) - paso))"
    by simp
next
  fix pasosTiempo :: real and paso :: nat and simulacionesArr :: "real list list"
  fix promedio promedio' :: "jsnum list" and p5 p5' p95 p95' :: "js_value list"
  assume "real paso \<le> pasosTiempo"
  then have "int paso \<le> \<lfloor>pasosTiempo\<rfloor>" by (simp add: le_floor_iff)
  then have "paso < nat (\<lfloor>pasosTiempo\<rfloor> + 1)" by simp
  then show "((pasosTiempo, simulacionesArr, Suc paso, promedio', p5', p95'),
              (pasosTiempo, simulacionesArr, paso, promedio, p5, p95))
             \<in> measure (\<lambda>(pasosTiempo, simulacionesArr, paso, promedio, percentil_5, percentil_95).
                   nat (\<lfloor>pasosTiempo\<rfloor> + 1) - paso)"
    by simp
qed

declare estadisticas_loop.simps [simp del]

text \<open>\<^verbatim>\<open>Math.min(...xs)\<close> and \<^verbatim>\<open>Math.max(...xs)\<close>; without arguments they are the infinities.\<close>

definition math_min :: "real list \<Rightarrow> jsnum" where
  "math_min xs = (case xs of [] \<Rightarrow> PosInf | x # rest \<Rightarrow> Fin (foldl min x rest))"

definition math_max :: "real list \<Rightarrow> jsnum" where
  "math_max xs = (case xs of [] \<Rightarrow> NegInf | x # rest \<Rightarrow> Fin (foldl max x rest))"

record result =
  simulaciones :: "real list list"
  promedio :: "jsnum list"
  percentil_5 :: "js_value list"
  percentil_95 :: "js_value list"
  precio_final_promedio :: jsnum
  precio_final_minimo :: jsnum
  precio_final_maximo :: jsnum
  var_95 :: jsnum
  var_percentaje :: jsnum

text \<open>
  The engine on four finite numbers that have passed the validation. With
  \<open>1 \<le> dias\<close>, once line 93 has created a row, \<open>pasosTiempo\<close> is a natural number and
  the column indices of lines 116 and 123 are in range; \<open>valorBase\<close> is positive, so
  line 129 does not divide by zero.
\<close>

definition engine :: "real \<Rightarrow> real \<Rightarrow> real \<Rightarrow> real \<Rightarrow> rng \<Rightarrow> (js_error + result) option" where
  "engine precio vol d sims rnd =
     (let valorBase = precio;
          volDiaria = vol / 100 / sqrt 252;
          deltaT = 1 / 252;
          tasaInteres = 0;
          pasosTiempo = d;
          numTrayectorias = sims
      in case array_from_length numTrayectorias
                (case array_new (pasosTiempo + 1) of
                   Inl e \<Rightarrow> Inl e
                 | Inr n \<Rightarrow> Inr (replicate n valorBase)) of
           Inl e \<Rightarrow> Some (Inl e)
         | Inr simulacionesArr0 \<Rightarrow>
             (case pasos_loop rnd volDiaria deltaT tasaInteres pasosTiempo numTrayectorias 1
                     simulacionesArr0 0 of
                None \<Rightarrow> None
              | Some (Inl e) \<Rightarrow> Some (Inl e)
              | Some (Inr (simulacionesArr, k)) \<Rightarrow>
                  let estadisticas = estadisticas_loop pasosTiempo simulacionesArr 0 [] [] [];
                      preciosFinales = map (\<lambda>fila. fila ! nat \<lfloor>pasosTiempo\<rfloor>) simulacionesArr;
                      cambios = map (\<lambda>v. (v - valorBase) / valorBase) preciosFinales;
                      pRiesgo = percentile cambios 5
                  in Some (Inr \<lparr>simulaciones = simulacionesArr,
                                 promedio = fst estadisticas,
                                 percentil_5 = fst (snd estadisticas),
                                 percentil_95 = snd (snd estadisticas),
                                 precio_final_promedio = mean preciosFinales,
                                 precio_final_minimo = math_min preciosFinales,
                                 precio_final_maximo = math_max preciosFinales,
                                 var_95 = js_mul (Fin valorBase) (js_abs (ToNumber pRiesgo)),
                                 var_percentaje = js_mul (ToNumber pRiesgo) (Fin 100)\<rparr>)))"

subsection \<open>The handler (lines 36 to 152)\<close>

text \<open>
  The responses: status 400 with a rejection, status 500 (the \<^verbatim>\<open>catch\<close>), status 200
  with the result. A request that passes the validation with \<^verbatim>\<open>NaN\<close> or an infinity
  among its four numbers enters the engine as well; what the engine computes from a
  special value is outside this model, and \<open>EngineOnSpecialValue\<close> records only that
  the engine was entered. \<open>None\<close> is a handler that does not return.
\<close>

datatype response = Rejected rejection | InternalError | Ok result | EngineOnSpecialValue

definition POST :: "body \<Rightarrow> rng \<Rightarrow> response option" where
  "POST b rnd =
     (case validate b of
        Inl r \<Rightarrow> Some (Rejected r)
      | Inr (Fin precio, Fin vol, Fin d, Fin sims) \<Rightarrow>
          (case engine precio vol d sims rnd of
             None \<Rightarrow> None
           | Some (Inl e) \<Rightarrow> Some InternalError
           | Some (Inr res) \<Rightarrow> Some (Ok res))
      | Inr _ \<Rightarrow> Some EngineOnSpecialValue)"

subsection \<open>Requests and random sources used in the statements\<close>

text \<open>The body whose four fields are the finite numbers \<open>p\<close>, \<open>v\<close>, \<open>d\<close> and \<open>s\<close>.\<close>

definition request :: "real \<Rightarrow> real \<Rightarrow> real \<Rightarrow> real \<Rightarrow> body" where
  "request p v d s =
     \<lparr>precio_actual = JNumber (Fin p), volatilidad = JNumber (Fin v),
      dias = JNumber (Fin d), body.simulaciones = JNumber (Fin s)\<rparr>"

text \<open>
  The generator does not return zero forever: after every call there is a later call
  whose value is not zero. This is what makes both loops of \<open>gaussianRandom\<close> return.
\<close>

definition eventually_nonzero :: "rng \<Rightarrow> bool" where
  "eventually_nonzero rnd = (\<forall>k. \<exists>j. k \<le> j \<and> rnd j \<noteq> 0)"

text \<open>The generator that returns \<open>c\<close> at every call.\<close>

definition constant_rng :: "real \<Rightarrow> rng" where
  "constant_rng c = (\<lambda>k. c)"

section \<open>Auxiliary facts\<close>

subsection \<open>Validation of a body of four finite numbers\<close>

lemma validate_request:
  "validate (request p v d s) =
     (if p \<le> 0 then Inl PrecioInvalido
      else if v < 0 \<or> 200 < v then Inl VolatilidadInvalida
      else if d < 1 \<or> 365 < d then Inl DiasInvalidos
      else if s < 100 \<or> 10000 < s then Inl SimulacionesInvalidas
      else Inr (Fin p, Fin v, Fin d, Fin s))"
  by (simp add: validate_def request_def js_gt_def Let_def)

lemma POST_Rejected_iff: "POST b rnd = Some (Rejected r) \<longleftrightarrow> validate b = Inl r"
  by (simp add: POST_def split: sum.splits prod.splits jsnum.splits option.splits)

lemma POST_request_valid:
  assumes "0 < p" "0 \<le> v" "v \<le> 200" "1 \<le> d" "d \<le> 365" "100 \<le> s" "s \<le> 10000"
  shows "POST (request p v d s) rnd =
           (case engine p v d s rnd of
              None \<Rightarrow> None
            | Some (Inl e) \<Rightarrow> Some InternalError
            | Some (Inr res) \<Rightarrow> Some (Ok res))"
proof -
  have "validate (request p v d s) = Inr (Fin p, Fin v, Fin d, Fin s)"
    using assms by (simp add: validate_request)
  then show ?thesis by (simp add: POST_def)
qed

subsection \<open>Mean and percentile\<close>

subsection \<open>Rounding to binary64\<close>

lemma binary64_ulp_eq:
  assumes "2 powr real_of_int e \<le> \<bar>x\<bar>" and "\<bar>x\<bar> < 2 powr real_of_int (e + 1)" and "- 1022 \<le> e"
  shows "binary64_ulp x = 2 powr real_of_int (e - 52)"
proof -
  have "0 < 2 powr real_of_int e" by simp
  then have "0 < \<bar>x\<bar>" using assms(1) by linarith
  then have "\<lfloor>log 2 \<bar>x\<bar>\<rfloor> = e"
    using assms(1,2) by (simp add: floor_log_eq_powr_iff)
  then show ?thesis using assms(3) by (simp add: binary64_ulp_def)
qed

lemma round_half_even_of_int: "round_half_even (real_of_int k) = k"
  by (simp add: round_half_even_def)

lemma round_half_even_tie:
  "round_half_even (real_of_int k + 1 / 2) = (if even k then k else k + 1)"
proof -
  have "\<lfloor>real_of_int k + 1 / 2\<rfloor> = k" by linarith
  then show ?thesis by (simp add: round_half_even_def)
qed

lemma to_double_eval:
  assumes "x \<noteq> 0"
    and "2 powr real_of_int e \<le> \<bar>x\<bar>" and "\<bar>x\<bar> < 2 powr real_of_int (e + 1)" and "- 1022 \<le> e"
    and "u = 2 powr real_of_int (e - 52)"
    and "round_half_even (x / u) = k"
    and "\<bar>real_of_int k * u\<bar> < 2 ^ 1024"
  shows "to_double x = Fin (real_of_int k * u)"
proof -
  have "binary64_ulp x = u" using binary64_ulp_eq [OF assms(2,3,4)] assms(5) by simp
  then show ?thesis using assms(1,6,7) by (simp add: to_double_def Let_def)
qed

lemma to_double_1e16_plus_1: "to_double 10000000000000001 = Fin 10000000000000000"
proof -
  have "(10000000000000001 :: real) / 2 = real_of_int 5000000000000000 + 1 / 2" by simp
  then have r: "round_half_even (10000000000000001 / 2) = 5000000000000000"
    by (simp only: round_half_even_tie) simp
  have "to_double 10000000000000001 = Fin (real_of_int 5000000000000000 * 2)"
    by (rule to_double_eval [where e = 53]) (simp_all add: powr_real_of_int r)
  then show ?thesis by simp
qed

lemma to_double_of_int:
  assumes "\<bar>m\<bar> \<le> 2 ^ 53"
  shows "to_double (real_of_int m) = Fin (real_of_int m)"
proof (cases "m = 0")
  case True
  then show ?thesis by (simp add: to_double_def)
next
  case False
  define x where "x = real_of_int m"
  define e where "e = \<lfloor>log 2 \<bar>x\<bar>\<rfloor>"
  have x1: "1 \<le> \<bar>x\<bar>" using False by (simp add: x_def)
  have x2: "\<bar>x\<bar> \<le> 2 ^ 53" using assms unfolding x_def
    by (metis of_int_abs of_int_le_iff of_int_numeral of_int_power)
  have e0: "0 \<le> e" unfolding e_def using x1 by simp
  have e53: "e \<le> 53"
  proof (rule ccontr)
    assume "\<not> e \<le> 53"
    then have "real_of_int 54 \<le> log 2 \<bar>x\<bar>" unfolding e_def by (simp add: le_floor_iff)
    then have "2 powr real_of_int 54 \<le> \<bar>x\<bar>" using x1 by (simp add: le_log_iff)
    then have "(2 :: real) ^ 54 \<le> 2 ^ 53" using x2 by simp
    then show False by simp
  qed
  have b: "2 powr real_of_int e \<le> \<bar>x\<bar>" "\<bar>x\<bar> < 2 powr real_of_int (e + 1)"
    using floor_log_eq_powr_iff [of "\<bar>x\<bar>" 2 e] x1 e_def by simp_all
  show ?thesis
  proof (cases "e \<le> 52")
    case True
    define j where "j = nat (52 - e)"
    have u: "2 powr real_of_int (e - 52) = 1 / 2 ^ j"
    proof (cases "e = 52")
      case True
      then show ?thesis by (simp add: j_def)
    next
      case False
      then have "e - 52 < 0" using \<open>e \<le> 52\<close> by simp
      moreover have "nat (- (e - 52)) = j" by (simp add: j_def)
      ultimately show ?thesis
        using powr_real_of_int [of 2 "e - 52"] by (simp add: inverse_eq_divide)
    qed
    have q: "x / (1 / 2 ^ j) = real_of_int (m * 2 ^ j)" by (simp add: x_def)
    have "to_double x = Fin (real_of_int (m * 2 ^ j) * (1 / 2 ^ j))"
    proof (rule to_double_eval [where e = e])
      show "x \<noteq> 0" using x1 by auto
      show "2 powr real_of_int e \<le> \<bar>x\<bar>" "\<bar>x\<bar> < 2 powr real_of_int (e + 1)" by (rule b)+
      show "- 1022 \<le> e" using e0 by simp
      show "1 / 2 ^ j = 2 powr real_of_int (e - 52)" using u by simp
      show "round_half_even (x / (1 / 2 ^ j)) = m * 2 ^ j"
        unfolding q by (rule round_half_even_of_int)
      have "\<bar>real_of_int (m * 2 ^ j) * (1 / 2 ^ j)\<bar> = \<bar>x\<bar>" by (simp add: x_def)
      also have "\<dots> \<le> 2 ^ 53" by (rule x2)
      also have "(2 :: real) ^ 53 < 2 ^ 1024" by simp
      finally show "\<bar>real_of_int (m * 2 ^ j) * (1 / 2 ^ j)\<bar> < 2 ^ 1024" .
    qed
    then show ?thesis by (simp add: x_def)
  next
    case False
    then have e: "e = 53" using e53 by simp
    have "2 ^ 53 \<le> \<bar>x\<bar>" using b(1) by (simp add: e powr_real_of_int)
    then have ax: "\<bar>x\<bar> = 2 ^ 53" using x2 by simp
    then have "\<bar>m\<bar> = 2 ^ 53" unfolding x_def
      by (metis of_int_abs of_int_eq_iff of_int_numeral of_int_power)
    then have ev: "even m" by (metis even_abs_add_iff even_add even_numeral even_power zero_less_numeral)
    then obtain h where h: "m = 2 * h" by (auto elim: evenE)
    have q: "x / 2 = real_of_int h" by (simp add: x_def h)
    have "to_double x = Fin (real_of_int h * 2)"
    proof (rule to_double_eval [where e = 53])
      show "x \<noteq> 0" using x1 by auto
      show "2 powr real_of_int 53 \<le> \<bar>x\<bar>" "\<bar>x\<bar> < 2 powr real_of_int (53 + 1)"
        using b unfolding e by simp_all
      show "- 1022 \<le> (53 :: int)" by simp
      show "2 = 2 powr real_of_int (53 - 52)" by simp
      show "round_half_even (x / 2) = h" unfolding q by (rule round_half_even_of_int)
      have "\<bar>real_of_int h * 2\<bar> = \<bar>x\<bar>" by (simp add: x_def h)
      then show "\<bar>real_of_int h * 2\<bar> < 2 ^ 1024" using ax by simp
    qed
    then show ?thesis by (simp add: x_def h)
  qed
qed

lemma to_double_dyadic:
  assumes "\<bar>m\<bar> < 4" and "2 \<le> \<bar>m\<bar>"
  shows "to_double (real_of_int m / 4) = Fin (real_of_int m / 4)"
proof -
  have "to_double (real_of_int m / 4) = Fin (real_of_int (m * 2 ^ 51) * (1 / 2 ^ 53))"
  proof (rule to_double_eval [where e = "- 1"])
    show "real_of_int m / 4 \<noteq> 0" using assms(2) by auto
    show "2 powr real_of_int (- 1) \<le> \<bar>real_of_int m / 4\<bar>"
      using assms(2) by (simp add: powr_real_of_int)
    show "\<bar>real_of_int m / 4\<bar> < 2 powr real_of_int (- 1 + 1)"
      using assms(1) by simp
    show "- 1022 \<le> (- 1 :: int)" by simp
    show "1 / 2 ^ 53 = 2 powr real_of_int (- 1 - 52)"
      using powr_real_of_int [of 2 "- 53"] by (simp add: inverse_eq_divide)
    have "real_of_int m / 4 / (1 / 2 ^ 53) = real_of_int (m * 2 ^ 51)" by simp
    then show "round_half_even (real_of_int m / 4 / (1 / 2 ^ 53)) = m * 2 ^ 51"
      by (simp only: round_half_even_of_int)
    have "\<bar>real_of_int (m * 2 ^ 51) * (1 / 2 ^ 53)\<bar> = \<bar>real_of_int m / 4\<bar>" by simp
    also have "\<dots> < 1" using assms(1) by simp
    also have "(1 :: real) < 2 ^ 1024" by simp
    finally show "\<bar>real_of_int (m * 2 ^ 51) * (1 / 2 ^ 53)\<bar> < 2 ^ 1024" .
  qed
  then show ?thesis by simp
qed

lemma to_double_1e16: "to_double 10000000000000000 = Fin 10000000000000000"
proof -
  have r: "round_half_even 5000000000000000 = 5000000000000000"
    by (simp add: round_half_even_def)
  have "to_double 10000000000000000 = Fin (real_of_int 5000000000000000 * 2)"
    by (rule to_double_eval [where e = 53]) (simp_all add: powr_real_of_int r)
  then show ?thesis by simp
qed

text \<open>The sum of \<open>mean\<close> when no addition rounds.\<close>

lemma foldl_sums_exact:
  "sums_exact acc vs \<Longrightarrow>
     foldl (\<lambda>sum v. js_add_double sum (Fin v)) (Fin acc) vs = Fin (acc + sum_list vs)"
  by (induction vs arbitrary: acc) (simp_all add: js_add_double_def add.assoc)

lemma mean_sums_exact:
  "sums_exact 0 vs \<Longrightarrow> mean vs = js_div_length (Fin (sum_list vs)) (length vs)"
  using foldl_sums_exact [of 0 vs] by (simp add: mean_def)

subsection \<open>Percentile\<close>

lemma sort_permutation: "mset ys = mset xs \<Longrightarrow> sort ys = sort (xs :: real list)"
  by (rule properties_for_sort) simp_all

lemma percentile_in_range:
  assumes ne: "xs \<noteq> []" and p0: "0 \<le> p" and p100: "p \<le> 100"
  defines "pos \<equiv> (p / 100) * (real (length xs) - 1)"
  shows "0 \<le> \<lfloor>pos\<rfloor>" and "\<lceil>pos\<rceil> < int (length xs)" and "\<lfloor>pos\<rfloor> \<le> \<lceil>pos\<rceil>"
proof -
  have n1: "1 \<le> real (length xs)"
    using ne by (cases xs) simp_all
  have pos0: "0 \<le> pos"
    unfolding pos_def using p0 n1 by simp
  have "p / 100 \<le> 1" using p100 by simp
  then have "pos \<le> 1 * (real (length xs) - 1)"
    unfolding pos_def using n1 by (intro mult_right_mono) simp_all
  then have posn: "pos \<le> real_of_int (int (length xs) - 1)" by simp
  show "0 \<le> \<lfloor>pos\<rfloor>" using pos0 by simp
  have "\<lceil>pos\<rceil> \<le> int (length xs) - 1" using posn by (simp only: ceiling_le_iff)
  then show "\<lceil>pos\<rceil> < int (length xs)" by simp
  show "\<lfloor>pos\<rfloor> \<le> \<lceil>pos\<rceil>" by (rule floor_le_ceiling)
qed

lemma percentile_nonempty:
  assumes "xs \<noteq> []"
  shows "percentile xs p =
     (let sorted = sort xs;
          pos = (p / 100) * (real (length xs) - 1);
          lower = \<lfloor>pos\<rfloor>;
          upper = \<lceil>pos\<rceil>
      in if lower = upper then array_get sorted lower
         else Number (js_add (js_mul (ToNumber (array_get sorted lower)) (Fin (1 - (pos - real_of_int lower))))
                             (js_mul (ToNumber (array_get sorted upper)) (Fin (pos - real_of_int lower)))))"
  using assms by (simp add: percentile_def Let_def)

lemma percentile_finite:
  assumes ne: "xs \<noteq> []" and p0: "0 \<le> p" and p100: "p \<le> 100"
  shows "\<exists>q. percentile xs p = Number (Fin q)"
proof -
  define pos where "pos = (p / 100) * (real (length xs) - 1)"
  have r: "0 \<le> \<lfloor>pos\<rfloor>" "\<lceil>pos\<rceil> < int (length xs)" "\<lfloor>pos\<rfloor> \<le> \<lceil>pos\<rceil>"
    unfolding pos_def using percentile_in_range [OF ne p0 p100] by simp_all
  have fl: "\<lfloor>pos\<rfloor> < int (length (sort xs))" using r(2) r(3) by (simp only: length_sort)
  have ce: "0 \<le> \<lceil>pos\<rceil>" using r(1) r(3) by linarith
  have lo: "array_get (sort xs) \<lfloor>pos\<rfloor> = Number (Fin (sort xs ! nat \<lfloor>pos\<rfloor>))"
    unfolding array_get_def using r(1) fl by (simp only: simp_thms if_True)
  have up: "array_get (sort xs) \<lceil>pos\<rceil> = Number (Fin (sort xs ! nat \<lceil>pos\<rceil>))"
    unfolding array_get_def using ce r(2) by (simp only: length_sort simp_thms if_True)
  show ?thesis
    unfolding percentile_nonempty [OF ne] Let_def pos_def [symmetric] lo up
    by simp
qed

subsection \<open>The random source\<close>

lemma redraw_while_zero_returns:
  assumes "k \<le> j" and "rnd j \<noteq> 0"
  shows "\<exists>u k'. redraw_while_zero rnd 0 k = Some (u, k')"
  using assms
proof (induction "j - k" arbitrary: k)
  case 0
  then have "k = j" by simp
  then show ?case
    using \<open>rnd j \<noteq> 0\<close>
    by (subst redraw_while_zero.simps, subst redraw_while_zero.simps) simp
next
  case (Suc m)
  show ?case
  proof (cases "rnd k = 0")
    case True
    have "\<exists>u k'. redraw_while_zero rnd 0 (Suc k) = Some (u, k')"
      using Suc by (intro Suc.hyps(1)) simp_all
    then show ?thesis
      using True by (subst redraw_while_zero.simps) simp
  next
    case False
    then show ?thesis
      by (subst redraw_while_zero.simps, subst redraw_while_zero.simps) simp
  qed
qed

lemma gaussianRandom_returns:
  assumes "eventually_nonzero rnd"
  shows "\<exists>z k'. gaussianRandom rnd k = Some (z, k')"
proof -
  obtain j where "k \<le> j" "rnd j \<noteq> 0"
    using assms unfolding eventually_nonzero_def by blast
  then obtain u k1 where u: "redraw_while_zero rnd 0 k = Some (u, k1)"
    using redraw_while_zero_returns by blast
  obtain j' where "k1 \<le> j'" "rnd j' \<noteq> 0"
    using assms unfolding eventually_nonzero_def by blast
  then obtain v k2 where v: "redraw_while_zero rnd 0 k1 = Some (v, k2)"
    using redraw_while_zero_returns by blast
  show ?thesis by (simp add: gaussianRandom_def u v)
qed

lemma draws_return:
  assumes "eventually_nonzero rnd"
  shows "\<exists>zs k'. draws rnd k n = Some (zs, k')"
proof (induction n arbitrary: k)
  case 0
  show ?case by simp
next
  case (Suc n)
  obtain z k1 where z: "gaussianRandom rnd k = Some (z, k1)"
    using gaussianRandom_returns [OF assms] by blast
  obtain zs k2 where "draws rnd k1 n = Some (zs, k2)"
    using Suc by blast
  with z show ?case by simp
qed

lemma draws_length: "draws rnd k n = Some (zs, k') \<Longrightarrow> length zs = n"
  by (induction n arbitrary: k zs) (auto split: option.splits)

lemma draws_Suc_elim:
  assumes "draws rnd k (Suc n) = Some (zs, k')"
  obtains z k1 zs' where "gaussianRandom rnd k = Some (z, k1)" "draws rnd k1 n = Some (zs', k')" "zs = z # zs'"
  using assms by (auto split: option.splits)

lemma draws_add_elim:
  assumes "draws rnd k (m + n) = Some (zs, k')"
  obtains zs1 k1 zs2 where "draws rnd k m = Some (zs1, k1)" "draws rnd k1 n = Some (zs2, k')" "zs = zs1 @ zs2"
  using assms
proof (induction m arbitrary: k zs thesis)
  case 0
  then show ?case by simp
next
  case (Suc m)
  from Suc.prems(2) have "draws rnd k (Suc (m + n)) = Some (zs, k')" by simp
  then obtain z k1 zs' where z: "gaussianRandom rnd k = Some (z, k1)"
    and r: "draws rnd k1 (m + n) = Some (zs', k')" and zs: "zs = z # zs'"
    by (rule draws_Suc_elim)
  obtain zs1 k2 zs2 where a: "draws rnd k1 m = Some (zs1, k2)" and b: "draws rnd k2 n = Some (zs2, k')"
    and c: "zs' = zs1 @ zs2"
    using Suc.IH [OF _ r] by blast
  have "draws rnd k (Suc m) = Some (z # zs1, k2)" using z a by simp
  then show ?case using b c zs Suc.prems(1) by simp
qed

lemma draws_add:
  assumes "draws rnd k m = Some (zs1, k1)" and "draws rnd k1 n = Some (zs2, k2)"
  shows "draws rnd k (m + n) = Some (zs1 @ zs2, k2)"
  using assms by (induction m arbitrary: k zs1) (auto split: option.splits)

lemma eventually_nonzero_constant: "c \<noteq> 0 \<Longrightarrow> eventually_nonzero (constant_rng c)"
  unfolding eventually_nonzero_def constant_rng_def by auto

subsection \<open>The loops of the engine\<close>

text \<open>
  One step of the inner loop, run from trajectory \<open>i\<close> over a matrix whose number of rows
  is \<open>numTrayectorias\<close>: it returns, it consumes one draw for each remaining trajectory,
  and it rewrites exactly the cell \<open>paso\<close> of each of them.
\<close>

lemma trayectorias_loop_run:
  assumes "real (length arr) = numTrayectorias"
    and "i \<le> length arr"
    and "draws rnd k (length arr - i) = Some (zs, k')"
  shows "\<exists>arr'. trayectorias_loop rnd volDiaria deltaT tasaInteres numTrayectorias paso i arr k
                  = Some (Inr (arr', k'))
           \<and> length arr' = length arr
           \<and> (\<forall>j<length arr. arr' ! j =
                 (if i \<le> j
                  then (arr ! j)[paso := (arr ! j) ! (paso - 1) *
                         exp ((tasaInteres - 0.5 * volDiaria * volDiaria) * deltaT
                              + volDiaria * sqrt deltaT * zs ! (j - i))]
                  else arr ! j))"
  using assms
proof (induction "length arr - i" arbitrary: i arr k zs)
  case 0
  then have "i = length arr" by simp
  moreover have "k' = k" using 0 by simp
  ultimately show ?case
    using "0.prems"(1) by (subst trayectorias_loop.simps) simp
next
  case (Suc m)
  have i: "i < length arr" using Suc.hyps(2) by simp
  have "draws rnd k (Suc m) = Some (zs, k')" using Suc.prems(3) Suc.hyps(2) by simp
  then obtain z k1 zs' where z: "gaussianRandom rnd k = Some (z, k1)"
    and r: "draws rnd k1 m = Some (zs', k')" and zs: "zs = z # zs'"
    by (rule draws_Suc_elim)
  define row where "row = (arr ! i)[paso := (arr ! i) ! (paso - 1) *
                         exp ((tasaInteres - 0.5 * volDiaria * volDiaria) * deltaT
                              + volDiaria * sqrt deltaT * z)]"
  define arr1 where "arr1 = arr[i := row]"
  have len1: "length arr1 = length arr" by (simp add: arr1_def)
  have m: "m = length arr1 - Suc i" using Suc.hyps(2) len1 by simp
  have "\<exists>arr'. trayectorias_loop rnd volDiaria deltaT tasaInteres numTrayectorias paso (Suc i) arr1 k1
                  = Some (Inr (arr', k'))
           \<and> length arr' = length arr1
           \<and> (\<forall>j<length arr1. arr' ! j =
                 (if Suc i \<le> j
                  then (arr1 ! j)[paso := (arr1 ! j) ! (paso - 1) *
                         exp ((tasaInteres - 0.5 * volDiaria * volDiaria) * deltaT
                              + volDiaria * sqrt deltaT * zs' ! (j - Suc i))]
                  else arr1 ! j))"
  proof (rule Suc.hyps(1) [OF m])
    show "real (length arr1) = numTrayectorias" using Suc.prems(1) len1 by simp
    show "Suc i \<le> length arr1" using i len1 by simp
    show "draws rnd k1 (length arr1 - Suc i) = Some (zs', k')" using r m by simp
  qed
  then obtain arr' where
    run: "trayectorias_loop rnd volDiaria deltaT tasaInteres numTrayectorias paso (Suc i) arr1 k1
            = Some (Inr (arr', k'))"
    and len': "length arr' = length arr1"
    and cells: "\<And>j. j < length arr1 \<Longrightarrow> arr' ! j =
                 (if Suc i \<le> j
                  then (arr1 ! j)[paso := (arr1 ! j) ! (paso - 1) *
                         exp ((tasaInteres - 0.5 * volDiaria * volDiaria) * deltaT
                              + volDiaria * sqrt deltaT * zs' ! (j - Suc i))]
                  else arr1 ! j)"
    by blast
  have lt: "real i < numTrayectorias" using i Suc.prems(1) by auto
  have step: "trayectorias_loop rnd volDiaria deltaT tasaInteres numTrayectorias paso i arr k
              = Some (Inr (arr', k'))"
    using lt i z run
    by (subst trayectorias_loop.simps) (simp add: Let_def arr1_def row_def)
  have "arr' ! j =
          (if i \<le> j
           then (arr ! j)[paso := (arr ! j) ! (paso - 1) *
                  exp ((tasaInteres - 0.5 * volDiaria * volDiaria) * deltaT
                       + volDiaria * sqrt deltaT * zs ! (j - i))]
           else arr ! j)" if j: "j < length arr" for j
  proof -
    consider "j < i" | "j = i" | "i < j" by linarith
    then show ?thesis
    proof cases
      case 1
      then show ?thesis using cells [of j] j len1 by (simp add: arr1_def)
    next
      case 2
      then show ?thesis using cells [of j] j len1 i by (simp add: arr1_def row_def zs)
    next
      case 3
      then have "zs ! (j - i) = zs' ! (j - Suc i)" by (simp add: zs)
      then show ?thesis using 3 cells [of j] j len1 by (simp add: arr1_def)
    qed
  qed
  then show ?case using step len' len1 by simp
qed

text \<open>
  The outer loop from step \<open>paso\<close> on, over a rectangular matrix with \<open>D + 1\<close> columns:
  the matrix stays rectangular, the columns before \<open>paso\<close> are not touched, and every
  later column is the previous one times the factor of its own draw.
\<close>

lemma pasos_loop_run:
  assumes rows: "real (length arr) = numTrayectorias"
    and cols: "\<forall>j<length arr. length (arr ! j) = Suc D"
    and pT: "pasosTiempo = real D"
    and p1: "1 \<le> paso" and p2: "paso \<le> Suc D"
    and dr: "draws rnd k ((Suc D - paso) * length arr) = Some (zs, k')"
  shows "\<exists>arr'. pasos_loop rnd volDiaria deltaT tasaInteres pasosTiempo numTrayectorias paso arr k
                  = Some (Inr (arr', k'))
           \<and> length arr' = length arr
           \<and> (\<forall>j<length arr.
                 length (arr' ! j) = Suc D
                 \<and> (\<forall>t<paso. arr' ! j ! t = arr ! j ! t)
                 \<and> (\<forall>t. paso \<le> t \<and> t \<le> D \<longrightarrow>
                       arr' ! j ! t = arr' ! j ! (t - 1) *
                         exp ((tasaInteres - 0.5 * volDiaria * volDiaria) * deltaT
                              + volDiaria * sqrt deltaT * zs ! ((t - paso) * length arr + j))))"
  using rows cols p1 p2 dr
proof (induction "Suc D - paso" arbitrary: paso arr k zs)
  case 0
  then have "paso = Suc D" by simp
  moreover have "k' = k" using 0 by simp
  ultimately show ?case
    using "0.prems"(2) pT by (subst pasos_loop.simps) simp
next
  case (Suc m)
  let ?n = "length arr"
  have le: "paso \<le> D" using Suc.hyps(2) by simp
  have "(Suc D - paso) * ?n = ?n + (Suc D - Suc paso) * ?n"
    using le by (simp add: Suc_diff_le)
  then have "draws rnd k (?n + (Suc D - Suc paso) * ?n) = Some (zs, k')"
    using Suc.prems(5) by simp
  then obtain zs1 k1 zs2 where d1: "draws rnd k ?n = Some (zs1, k1)"
    and d2: "draws rnd k1 ((Suc D - Suc paso) * ?n) = Some (zs2, k')"
    and zs: "zs = zs1 @ zs2"
    by (rule draws_add_elim)
  have lz: "length zs1 = ?n" using d1 by (rule draws_length)
  have "\<exists>arr1. trayectorias_loop rnd volDiaria deltaT tasaInteres numTrayectorias paso 0 arr k
                  = Some (Inr (arr1, k1))
           \<and> length arr1 = length arr
           \<and> (\<forall>j<length arr. arr1 ! j =
                 (if 0 \<le> j
                  then (arr ! j)[paso := (arr ! j) ! (paso - 1) *
                         exp ((tasaInteres - 0.5 * volDiaria * volDiaria) * deltaT
                              + volDiaria * sqrt deltaT * zs1 ! (j - 0))]
                  else arr ! j))"
    using Suc.prems(1) d1 by (intro trayectorias_loop_run) simp_all
  then obtain arr1 where
    inner: "trayectorias_loop rnd volDiaria deltaT tasaInteres numTrayectorias paso 0 arr k
              = Some (Inr (arr1, k1))"
    and len1: "length arr1 = ?n"
    and row1: "\<And>j. j < ?n \<Longrightarrow> arr1 ! j =
                 (arr ! j)[paso := (arr ! j) ! (paso - 1) *
                         exp ((tasaInteres - 0.5 * volDiaria * volDiaria) * deltaT
                              + volDiaria * sqrt deltaT * zs1 ! j)]"
    by auto
  have m: "m = Suc D - Suc paso" using Suc.hyps(2) by simp
  have "\<exists>arr'. pasos_loop rnd volDiaria deltaT tasaInteres pasosTiempo numTrayectorias (Suc paso) arr1 k1
                  = Some (Inr (arr', k'))
           \<and> length arr' = length arr1
           \<and> (\<forall>j<length arr1.
                 length (arr' ! j) = Suc D
                 \<and> (\<forall>t<Suc paso. arr' ! j ! t = arr1 ! j ! t)
                 \<and> (\<forall>t. Suc paso \<le> t \<and> t \<le> D \<longrightarrow>
                       arr' ! j ! t = arr' ! j ! (t - 1) *
                         exp ((tasaInteres - 0.5 * volDiaria * volDiaria) * deltaT
                              + volDiaria * sqrt deltaT * zs2 ! ((t - Suc paso) * length arr1 + j))))"
  proof (rule Suc.hyps(1) [OF m])
    show "real (length arr1) = numTrayectorias" using Suc.prems(1) len1 by simp
    show "\<forall>j<length arr1. length (arr1 ! j) = Suc D"
      using Suc.prems(2) len1 row1 by simp
    show "1 \<le> Suc paso" by simp
    show "Suc paso \<le> Suc D" using le by simp
    show "draws rnd k1 ((Suc D - Suc paso) * length arr1) = Some (zs2, k')"
      using d2 len1 by simp
  qed
  then obtain arr' where
    run: "pasos_loop rnd volDiaria deltaT tasaInteres pasosTiempo numTrayectorias (Suc paso) arr1 k1
            = Some (Inr (arr', k'))"
    and len2: "length arr' = length arr1"
    and all: "\<forall>j<length arr1.
                 length (arr' ! j) = Suc D
                 \<and> (\<forall>t<Suc paso. arr' ! j ! t = arr1 ! j ! t)
                 \<and> (\<forall>t. Suc paso \<le> t \<and> t \<le> D \<longrightarrow>
                       arr' ! j ! t = arr' ! j ! (t - 1) *
                         exp ((tasaInteres - 0.5 * volDiaria * volDiaria) * deltaT
                              + volDiaria * sqrt deltaT * zs2 ! ((t - Suc paso) * length arr1 + j)))"
    by blast
  have len': "length arr' = ?n" using len2 len1 by simp
  have lrow: "length (arr' ! j) = Suc D" if "j < ?n" for j
    using all that len1 by simp
  have keep: "arr' ! j ! t = arr1 ! j ! t" if "j < ?n" "t < Suc paso" for j t
    using all that len1 by simp
  have rec: "arr' ! j ! t = arr' ! j ! (t - 1) *
                   exp ((tasaInteres - 0.5 * volDiaria * volDiaria) * deltaT
                        + volDiaria * sqrt deltaT * zs2 ! ((t - Suc paso) * ?n + j))"
    if "j < ?n" "Suc paso \<le> t" "t \<le> D" for j t
    using all that len1 by simp
  have step: "pasos_loop rnd volDiaria deltaT tasaInteres pasosTiempo numTrayectorias paso arr k
              = Some (Inr (arr', k'))"
    using le pT inner run by (subst pasos_loop.simps) simp
  have old: "arr' ! j ! t = arr ! j ! t" if "j < ?n" "t < paso" for j t
    using that keep [of j t] row1 [of j] by simp
  have new: "arr' ! j ! t = arr' ! j ! (t - 1) *
                   exp ((tasaInteres - 0.5 * volDiaria * volDiaria) * deltaT
                        + volDiaria * sqrt deltaT * zs ! ((t - paso) * ?n + j))"
    if j: "j < ?n" and t1: "paso \<le> t" and t2: "t \<le> D" for j t
  proof (cases "t = paso")
    case True
    have a: "arr' ! j ! paso = (arr ! j) ! (paso - 1) *
                         exp ((tasaInteres - 0.5 * volDiaria * volDiaria) * deltaT
                              + volDiaria * sqrt deltaT * zs1 ! j)"
      using keep [of j paso] row1 [of j] j le Suc.prems(2) by simp
    have b: "arr' ! j ! (paso - 1) = arr ! j ! (paso - 1)"
      using old [of j "paso - 1"] j Suc.prems(3) by simp
    have c: "zs ! j = zs1 ! j" using j lz by (simp add: zs nth_append)
    show ?thesis using True a b c by simp
  next
    case False
    then have t3: "Suc paso \<le> t" using t1 by simp
    have "t - paso = Suc (t - Suc paso)" using t3 by simp
    then have "(t - paso) * ?n + j = ?n + ((t - Suc paso) * ?n + j)"
      by (simp only: mult_Suc add.assoc)
    then have "zs ! ((t - paso) * ?n + j) = zs2 ! ((t - Suc paso) * ?n + j)"
      using lz by (simp add: zs nth_append)
    then show ?thesis using rec [OF j t3 t2] by simp
  qed
  show ?case using step len' lrow old new by simp
qed

text \<open>
  Conversely, a loop that returns has received all the draws it asks for.
\<close>

lemma trayectorias_loop_draws:
  assumes "real (length arr) = numTrayectorias"
    and "i \<le> length arr"
    and "trayectorias_loop rnd volDiaria deltaT tasaInteres numTrayectorias paso i arr k = Some x"
  shows "\<exists>zs k'. draws rnd k (length arr - i) = Some (zs, k')"
  using assms
proof (induction "length arr - i" arbitrary: i arr k)
  case 0
  then show ?case by simp
next
  case (Suc m)
  have i: "i < length arr" using Suc.hyps(2) by simp
  have lt: "real i < numTrayectorias" using i Suc.prems(1) by auto
  have "gaussianRandom rnd k \<noteq> None"
  proof
    assume "gaussianRandom rnd k = None"
    then have "trayectorias_loop rnd volDiaria deltaT tasaInteres numTrayectorias paso i arr k = None"
      using lt by (subst trayectorias_loop.simps) simp
    then show False using Suc.prems(3) by simp
  qed
  then obtain z k1 where z: "gaussianRandom rnd k = Some (z, k1)" by auto
  define arr1 where "arr1 = arr[i := (arr ! i)[paso := (arr ! i) ! (paso - 1) *
                         exp ((tasaInteres - 0.5 * volDiaria * volDiaria) * deltaT
                              + volDiaria * sqrt deltaT * z)]]"
  have len1: "length arr1 = length arr" by (simp add: arr1_def)
  have "trayectorias_loop rnd volDiaria deltaT tasaInteres numTrayectorias paso i arr k
          = trayectorias_loop rnd volDiaria deltaT tasaInteres numTrayectorias paso (Suc i) arr1 k1"
    using lt i z by (subst trayectorias_loop.simps) (simp add: Let_def arr1_def)
  then have next_run:
    "trayectorias_loop rnd volDiaria deltaT tasaInteres numTrayectorias paso (Suc i) arr1 k1 = Some x"
    using Suc.prems(3) by simp
  have "\<exists>zs k'. draws rnd k1 (length arr1 - Suc i) = Some (zs, k')"
  proof (rule Suc.hyps(1))
    show "m = length arr1 - Suc i" using Suc.hyps(2) len1 by simp
    show "real (length arr1) = numTrayectorias" using Suc.prems(1) len1 by simp
    show "Suc i \<le> length arr1" using i len1 by simp
    show "trayectorias_loop rnd volDiaria deltaT tasaInteres numTrayectorias paso (Suc i) arr1 k1 = Some x"
      by (rule next_run)
  qed
  then obtain zs k' where "draws rnd k1 (length arr - Suc i) = Some (zs, k')"
    using len1 by auto
  moreover have "length arr - i = Suc (length arr - Suc i)" using i by simp
  ultimately show ?case using z by simp
qed

lemma pasos_loop_draws:
  assumes "real (length arr) = numTrayectorias"
    and "pasosTiempo = real D"
    and "paso \<le> Suc D"
    and "pasos_loop rnd volDiaria deltaT tasaInteres pasosTiempo numTrayectorias paso arr k = Some x"
  shows "\<exists>zs k'. draws rnd k ((Suc D - paso) * length arr) = Some (zs, k')"
  using assms(1,3,4)
proof (induction "Suc D - paso" arbitrary: paso arr k)
  case 0
  then show ?case by simp
next
  case (Suc m)
  let ?n = "length arr"
  have le: "paso \<le> D" using Suc.hyps(2) by simp
  have go: "real paso \<le> pasosTiempo" using le assms(2) by simp
  have "trayectorias_loop rnd volDiaria deltaT tasaInteres numTrayectorias paso 0 arr k \<noteq> None"
  proof
    assume "trayectorias_loop rnd volDiaria deltaT tasaInteres numTrayectorias paso 0 arr k = None"
    then have "pasos_loop rnd volDiaria deltaT tasaInteres pasosTiempo numTrayectorias paso arr k = None"
      using go by (subst pasos_loop.simps) simp
    then show False using Suc.prems(3) by simp
  qed
  then obtain y where
    y: "trayectorias_loop rnd volDiaria deltaT tasaInteres numTrayectorias paso 0 arr k = Some y"
    by auto
  have "\<exists>zs k'. draws rnd k (?n - 0) = Some (zs, k')"
    using Suc.prems(1) y by (intro trayectorias_loop_draws) simp_all
  then obtain zs1 k1 where d1: "draws rnd k ?n = Some (zs1, k1)" by auto
  have "\<exists>arr1. trayectorias_loop rnd volDiaria deltaT tasaInteres numTrayectorias paso 0 arr k
                  = Some (Inr (arr1, k1))
           \<and> length arr1 = length arr
           \<and> (\<forall>j<length arr. arr1 ! j =
                 (if 0 \<le> j
                  then (arr ! j)[paso := (arr ! j) ! (paso - 1) *
                         exp ((tasaInteres - 0.5 * volDiaria * volDiaria) * deltaT
                              + volDiaria * sqrt deltaT * zs1 ! (j - 0))]
                  else arr ! j))"
    using Suc.prems(1) d1 by (intro trayectorias_loop_run) simp_all
  then obtain arr1 where
    inner: "trayectorias_loop rnd volDiaria deltaT tasaInteres numTrayectorias paso 0 arr k
              = Some (Inr (arr1, k1))"
    and len1: "length arr1 = ?n"
    by blast
  have "pasos_loop rnd volDiaria deltaT tasaInteres pasosTiempo numTrayectorias paso arr k
          = pasos_loop rnd volDiaria deltaT tasaInteres pasosTiempo numTrayectorias (Suc paso) arr1 k1"
    using go inner by (subst pasos_loop.simps) simp
  then have next_run:
    "pasos_loop rnd volDiaria deltaT tasaInteres pasosTiempo numTrayectorias (Suc paso) arr1 k1 = Some x"
    using Suc.prems(3) by simp
  have "\<exists>zs k'. draws rnd k1 ((Suc D - Suc paso) * length arr1) = Some (zs, k')"
  proof (rule Suc.hyps(1))
    show "m = Suc D - Suc paso" using Suc.hyps(2) by simp
    show "real (length arr1) = numTrayectorias" using Suc.prems(1) len1 by simp
    show "Suc paso \<le> Suc D" using le by simp
    show "pasos_loop rnd volDiaria deltaT tasaInteres pasosTiempo numTrayectorias (Suc paso) arr1 k1 = Some x"
      by (rule next_run)
  qed
  then obtain zs2 k' where d2: "draws rnd k1 ((Suc D - Suc paso) * ?n) = Some (zs2, k')"
    using len1 by auto
  have "(Suc D - paso) * ?n = ?n + (Suc D - Suc paso) * ?n"
    using le by (simp add: Suc_diff_le)
  then show ?case using draws_add [OF d1 d2] by simp
qed

text \<open>
  When \<open>numTrayectorias\<close> is not an integer the loop counter reaches the index after the
  last row, and the loop raises.
\<close>

lemma trayectorias_loop_overrun:
  assumes "real (length arr) < numTrayectorias"
    and "i \<le> length arr"
    and "eventually_nonzero rnd"
  shows "trayectorias_loop rnd volDiaria deltaT tasaInteres numTrayectorias paso i arr k
           = Some (Inl TypeError)"
  using assms(1,2)
proof (induction "length arr - i" arbitrary: i arr k)
  case 0
  then have i: "i = length arr" by simp
  obtain z k1 where z: "gaussianRandom rnd k = Some (z, k1)"
    using gaussianRandom_returns [OF assms(3)] by blast
  show ?case
    using "0.prems"(1) i z by (subst trayectorias_loop.simps) (simp add: Let_def)
next
  case (Suc m)
  have i: "i < length arr" using Suc.hyps(2) by simp
  obtain z k1 where z: "gaussianRandom rnd k = Some (z, k1)"
    using gaussianRandom_returns [OF assms(3)] by blast
  define arr1 where "arr1 = arr[i := (arr ! i)[paso := (arr ! i) ! (paso - 1) *
                         exp ((tasaInteres - 0.5 * volDiaria * volDiaria) * deltaT
                              + volDiaria * sqrt deltaT * z)]]"
  have len1: "length arr1 = length arr" by (simp add: arr1_def)
  have "trayectorias_loop rnd volDiaria deltaT tasaInteres numTrayectorias paso (Suc i) arr1 k1
           = Some (Inl TypeError)"
  proof (rule Suc.hyps(1))
    show "m = length arr1 - Suc i" using Suc.hyps(2) len1 by simp
    show "real (length arr1) < numTrayectorias" using Suc.prems(1) len1 by simp
    show "Suc i \<le> length arr1" using i len1 by simp
  qed
  moreover have "real i < numTrayectorias" using i Suc.prems(1) by simp
  ultimately show ?case
    using i z by (subst trayectorias_loop.simps) (simp add: Let_def arr1_def)
qed

subsection \<open>The engine\<close>

lemma array_new_nat: "D \<le> 365 \<Longrightarrow> array_new (real D + 1) = Inr (Suc D)"
proof -
  assume "D \<le> 365"
  then have "real D + 1 < 2 ^ 32" by simp
  moreover have "\<lfloor>real D + 1\<rfloor> = int D + 1" by linarith
  ultimately show ?thesis by (simp add: array_new_def)
qed

lemma ToLength_nat: "N \<le> 10000 \<Longrightarrow> ToLength (real N) = N"
  by (simp add: ToLength_def)

lemma array_from_length_rows:
  assumes "0 < N" "N \<le> 10000"
  shows "array_from_length (real N) (Inr row) = Inr (replicate N row)"
proof -
  have "N < 2 ^ 32" using assms(2) by simp
  then show ?thesis using assms by (simp add: array_from_length_def ToLength_nat)
qed

lemma ToLength_in_range:
  assumes "100 \<le> s" "s \<le> 10000"
  shows "ToLength s = nat \<lfloor>s\<rfloor>" and "ToLength s \<noteq> 0" and "\<not> 2 ^ 32 \<le> ToLength s"
    and "s \<notin> \<int> \<Longrightarrow> real (ToLength s) < s"
proof -
  define f where "f = \<lfloor>s\<rfloor>"
  have f1: "100 \<le> f" unfolding f_def using assms(1) by (simp add: le_floor_iff)
  have f2: "f \<le> 10000" unfolding f_def using assms(2) by (simp add: floor_le_iff)
  have t: "ToLength s = nat f" unfolding ToLength_def f_def [symmetric] using f1 f2 by simp
  show "ToLength s = nat \<lfloor>s\<rfloor>" using t by (simp only: f_def)
  show "ToLength s \<noteq> 0" unfolding t using f1 by simp
  show "\<not> 2 ^ 32 \<le> ToLength s" unfolding t using f2 by simp
  show "real (ToLength s) < s" if "s \<notin> \<int>"
  proof -
    have "real_of_int f \<noteq> s" using that by (metis Ints_of_int)
    moreover have "real_of_int f \<le> s" unfolding f_def by (rule of_int_floor_le)
    ultimately have "real_of_int f < s" by (simp only: less_le) simp
    moreover have "real (nat f) = real_of_int f" using f1 by simp
    ultimately show ?thesis unfolding t by (simp only:)
  qed
qed

lemma engine_run:
  assumes p: "0 < p" and D1: "1 \<le> D" and D2: "D \<le> 365" and N1: "100 \<le> N" and N2: "N \<le> 10000"
    and dr: "draws rnd 0 (D * N) = Some (zs, k')"
  shows "\<exists>res.
           engine p v (real D) (real N) rnd = Some (Inr res)
         \<and> length (simulaciones res) = N
         \<and> (\<forall>j<N. length (simulaciones res ! j) = Suc D
                \<and> simulaciones res ! j ! 0 = p
                \<and> (\<forall>t. 1 \<le> t \<and> t \<le> D \<longrightarrow>
                      simulaciones res ! j ! t = simulaciones res ! j ! (t - 1) *
                        exp ((0 - 0.5 * (v / 100 / sqrt 252) * (v / 100 / sqrt 252)) * (1 / 252)
                             + v / 100 / sqrt 252 * sqrt (1 / 252) * zs ! ((t - 1) * N + j))))
         \<and> var_95 res = js_mul (Fin p) (js_abs (ToNumber
               (percentile (map (\<lambda>x. (x - p) / p) (map (\<lambda>fila. fila ! D) (simulaciones res))) 5)))
         \<and> var_percentaje res = js_mul (ToNumber
               (percentile (map (\<lambda>x. (x - p) / p) (map (\<lambda>fila. fila ! D) (simulaciones res))) 5)) (Fin 100)"
proof -
  define arr0 where "arr0 = replicate N (replicate (Suc D) p)"
  have N0: "0 < N" using N1 by simp
  have init: "array_from_length (real N)
                (case array_new (real D + 1) of Inl e \<Rightarrow> Inl e | Inr n \<Rightarrow> Inr (replicate n p))
              = Inr arr0"
    using array_new_nat [OF D2] array_from_length_rows [OF N0 N2] by (simp add: arr0_def)
  have "\<exists>arr'. pasos_loop rnd (v / 100 / sqrt 252) (1 / 252) 0 (real D) (real N) 1 arr0 0
                  = Some (Inr (arr', k'))
           \<and> length arr' = length arr0
           \<and> (\<forall>j<length arr0.
                 length (arr' ! j) = Suc D
                 \<and> (\<forall>t<1. arr' ! j ! t = arr0 ! j ! t)
                 \<and> (\<forall>t. 1 \<le> t \<and> t \<le> D \<longrightarrow>
                       arr' ! j ! t = arr' ! j ! (t - 1) *
                         exp ((0 - 0.5 * (v / 100 / sqrt 252) * (v / 100 / sqrt 252)) * (1 / 252)
                              + v / 100 / sqrt 252 * sqrt (1 / 252) * zs ! ((t - 1) * length arr0 + j))))"
  proof (rule pasos_loop_run)
    show "real (length arr0) = real N" by (simp add: arr0_def)
    show "\<forall>j<length arr0. length (arr0 ! j) = Suc D" by (simp add: arr0_def)
    show "real D = real D" ..
    show "(1::nat) \<le> 1" ..
    show "1 \<le> Suc D" by simp
    show "draws rnd 0 ((Suc D - 1) * length arr0) = Some (zs, k')"
      using dr by (simp add: arr0_def)
  qed
  then obtain arr where
    run: "pasos_loop rnd (v / 100 / sqrt 252) (1 / 252) 0 (real D) (real N) 1 arr0 0
            = Some (Inr (arr, k'))"
    and len: "length arr = length arr0"
    and all: "\<forall>j<length arr0.
                 length (arr ! j) = Suc D
                 \<and> (\<forall>t<1. arr ! j ! t = arr0 ! j ! t)
                 \<and> (\<forall>t. 1 \<le> t \<and> t \<le> D \<longrightarrow>
                       arr ! j ! t = arr ! j ! (t - 1) *
                         exp ((0 - 0.5 * (v / 100 / sqrt 252) * (v / 100 / sqrt 252)) * (1 / 252)
                              + v / 100 / sqrt 252 * sqrt (1 / 252) * zs ! ((t - 1) * length arr0 + j)))"
    by blast
  have len0: "length arr0 = N" by (simp add: arr0_def)
  define res where "res =
     \<lparr>simulaciones = arr,
      promedio = fst (estadisticas_loop (real D) arr 0 [] [] []),
      percentil_5 = fst (snd (estadisticas_loop (real D) arr 0 [] [] [])),
      percentil_95 = snd (snd (estadisticas_loop (real D) arr 0 [] [] [])),
      precio_final_promedio = mean (map (\<lambda>fila. fila ! D) arr),
      precio_final_minimo = math_min (map (\<lambda>fila. fila ! D) arr),
      precio_final_maximo = math_max (map (\<lambda>fila. fila ! D) arr),
      var_95 = js_mul (Fin p) (js_abs (ToNumber
                 (percentile (map (\<lambda>x. (x - p) / p) (map (\<lambda>fila. fila ! D) arr)) 5))),
      var_percentaje = js_mul (ToNumber
                 (percentile (map (\<lambda>x. (x - p) / p) (map (\<lambda>fila. fila ! D) arr)) 5)) (Fin 100)\<rparr>"
  have eng: "engine p v (real D) (real N) rnd = Some (Inr res)"
    unfolding engine_def Let_def init using run by (simp add: res_def)
  have "length (simulaciones res) = N" using len len0 by (simp add: res_def)
  moreover have "length (simulaciones res ! j) = Suc D" if "j < N" for j
    using all that len0 by (simp add: res_def)
  moreover have "simulaciones res ! j ! 0 = p" if "j < N" for j
  proof -
    have "arr ! j ! 0 = arr0 ! j ! 0" using all that len0 by simp
    then show ?thesis using that by (simp add: res_def arr0_def)
  qed
  moreover have "simulaciones res ! j ! t = simulaciones res ! j ! (t - 1) *
                        exp ((0 - 0.5 * (v / 100 / sqrt 252) * (v / 100 / sqrt 252)) * (1 / 252)
                             + v / 100 / sqrt 252 * sqrt (1 / 252) * zs ! ((t - 1) * N + j))"
    if "j < N" "1 \<le> t" "t \<le> D" for j t
    using all that len0 by (simp add: res_def)
  moreover have "var_95 res = js_mul (Fin p) (js_abs (ToNumber
               (percentile (map (\<lambda>x. (x - p) / p) (map (\<lambda>fila. fila ! D) (simulaciones res))) 5)))"
    by (simp add: res_def)
  moreover have "var_percentaje res = js_mul (ToNumber
               (percentile (map (\<lambda>x. (x - p) / p) (map (\<lambda>fila. fila ! D) (simulaciones res))) 5)) (Fin 100)"
    by (simp add: res_def)
  ultimately show ?thesis using eng by blast
qed

lemma engine_returns_draws:
  assumes D2: "D \<le> 365" and N1: "100 \<le> N" and N2: "N \<le> 10000"
    and ret: "engine p v (real D) (real N) rnd = Some x"
  shows "\<exists>zs k'. draws rnd 0 (D * N) = Some (zs, k')"
proof -
  define arr0 where "arr0 = replicate N (replicate (Suc D) p)"
  have N0: "0 < N" using N1 by simp
  have init: "array_from_length (real N)
                (case array_new (real D + 1) of Inl e \<Rightarrow> Inl e | Inr n \<Rightarrow> Inr (replicate n p))
              = Inr arr0"
    using array_new_nat [OF D2] array_from_length_rows [OF N0 N2] by (simp add: arr0_def)
  have eng: "engine p v (real D) (real N) rnd =
      (case pasos_loop rnd (v / 100 / sqrt 252) (1 / 252) 0 (real D) (real N) 1 arr0 0 of
         None \<Rightarrow> None
       | Some (Inl e) \<Rightarrow> Some (Inl e)
       | Some (Inr (simulacionesArr, k)) \<Rightarrow>
           Some (Inr \<lparr>simulaciones = simulacionesArr,
              promedio = fst (estadisticas_loop (real D) simulacionesArr 0 [] [] []),
              percentil_5 = fst (snd (estadisticas_loop (real D) simulacionesArr 0 [] [] [])),
              percentil_95 = snd (snd (estadisticas_loop (real D) simulacionesArr 0 [] [] [])),
              precio_final_promedio = mean (map (\<lambda>fila. fila ! nat \<lfloor>real D\<rfloor>) simulacionesArr),
              precio_final_minimo = math_min (map (\<lambda>fila. fila ! nat \<lfloor>real D\<rfloor>) simulacionesArr),
              precio_final_maximo = math_max (map (\<lambda>fila. fila ! nat \<lfloor>real D\<rfloor>) simulacionesArr),
              var_95 = js_mul (Fin p) (js_abs (ToNumber
                 (percentile (map (\<lambda>v. (v - p) / p)
                    (map (\<lambda>fila. fila ! nat \<lfloor>real D\<rfloor>) simulacionesArr)) 5))),
              var_percentaje = js_mul (ToNumber
                 (percentile (map (\<lambda>v. (v - p) / p)
                    (map (\<lambda>fila. fila ! nat \<lfloor>real D\<rfloor>) simulacionesArr)) 5)) (Fin 100)\<rparr>))"
    unfolding engine_def Let_def init sum.case ..
  have "pasos_loop rnd (v / 100 / sqrt 252) (1 / 252) 0 (real D) (real N) 1 arr0 0 \<noteq> None"
  proof
    assume "pasos_loop rnd (v / 100 / sqrt 252) (1 / 252) 0 (real D) (real N) 1 arr0 0 = None"
    then have "engine p v (real D) (real N) rnd = None"
      unfolding eng by (simp only: option.case)
    then show False using ret by simp
  qed
  then obtain y where y:
    "pasos_loop rnd (v / 100 / sqrt 252) (1 / 252) 0 (real D) (real N) 1 arr0 0 = Some y"
    by auto
  have "\<exists>zs k'. draws rnd 0 ((Suc D - 1) * length arr0) = Some (zs, k')"
  proof (rule pasos_loop_draws)
    show "real (length arr0) = real N" by (simp add: arr0_def)
    show "real D = real D" ..
    show "1 \<le> Suc D" by simp
    show "pasos_loop rnd (v / 100 / sqrt 252) (1 / 252) 0 (real D) (real N) 1 arr0 0 = Some y"
      by (rule y)
  qed
  then show ?thesis by (simp add: arr0_def)
qed

text \<open>
  The handler on a valid request: it returns when the generator does not return zero
  forever, and whenever it returns, its response is the result of the engine on the
  \<open>D * N\<close> draws it has made.
\<close>

lemma POST_valid_returns:
  assumes "0 < p" and "0 \<le> v" and "v \<le> 200" and "1 \<le> D" and "D \<le> 365"
    and "100 \<le> N" and "N \<le> 10000" and "eventually_nonzero rnd"
  shows "\<exists>res. POST (request p v (real D) (real N)) rnd = Some (Ok res)"
proof -
  obtain zs k' where "draws rnd 0 (D * N) = Some (zs, k')"
    using draws_return [OF assms(8)] by blast
  then obtain res where "engine p v (real D) (real N) rnd = Some (Inr res)"
    using engine_run [OF assms(1,4,5,6,7), of rnd zs k' v] by blast
  then have "POST (request p v (real D) (real N)) rnd = Some (Ok res)"
    using assms by (subst POST_request_valid) simp_all
  then show ?thesis ..
qed

lemma POST_valid_result:
  assumes "0 < p" and "0 \<le> v" and "v \<le> 200" and "1 \<le> D" and "D \<le> 365"
    and "100 \<le> N" and "N \<le> 10000"
    and ret: "POST (request p v (real D) (real N)) rnd = Some r"
  shows "\<exists>res zs k'.
           r = Ok res
         \<and> draws rnd 0 (D * N) = Some (zs, k')
         \<and> length (simulaciones res) = N
         \<and> (\<forall>j<N. length (simulaciones res ! j) = Suc D
                \<and> simulaciones res ! j ! 0 = p
                \<and> (\<forall>t. 1 \<le> t \<and> t \<le> D \<longrightarrow>
                      simulaciones res ! j ! t = simulaciones res ! j ! (t - 1) *
                        exp ((0 - 0.5 * (v / 100 / sqrt 252) * (v / 100 / sqrt 252)) * (1 / 252)
                             + v / 100 / sqrt 252 * sqrt (1 / 252) * zs ! ((t - 1) * N + j))))
         \<and> var_95 res = js_mul (Fin p) (js_abs (ToNumber
               (percentile (map (\<lambda>x. (x - p) / p) (map (\<lambda>fila. fila ! D) (simulaciones res))) 5)))
         \<and> var_percentaje res = js_mul (ToNumber
               (percentile (map (\<lambda>x. (x - p) / p) (map (\<lambda>fila. fila ! D) (simulaciones res))) 5)) (Fin 100)"
proof -
  have post: "POST (request p v (real D) (real N)) rnd =
           (case engine p v (real D) (real N) rnd of
              None \<Rightarrow> None
            | Some (Inl e) \<Rightarrow> Some InternalError
            | Some (Inr res) \<Rightarrow> Some (Ok res))"
    using assms(1-7) by (intro POST_request_valid) simp_all
  have "engine p v (real D) (real N) rnd \<noteq> None"
  proof
    assume "engine p v (real D) (real N) rnd = None"
    then have "POST (request p v (real D) (real N)) rnd = None"
      unfolding post by simp
    then show False using ret by simp
  qed
  then obtain x where x: "engine p v (real D) (real N) rnd = Some x" by auto
  obtain zs k' where dr: "draws rnd 0 (D * N) = Some (zs, k')"
    using engine_returns_draws [OF assms(5,6,7) x] by blast
  obtain res where eng: "engine p v (real D) (real N) rnd = Some (Inr res)"
    and props: "length (simulaciones res) = N
         \<and> (\<forall>j<N. length (simulaciones res ! j) = Suc D
                \<and> simulaciones res ! j ! 0 = p
                \<and> (\<forall>t. 1 \<le> t \<and> t \<le> D \<longrightarrow>
                      simulaciones res ! j ! t = simulaciones res ! j ! (t - 1) *
                        exp ((0 - 0.5 * (v / 100 / sqrt 252) * (v / 100 / sqrt 252)) * (1 / 252)
                             + v / 100 / sqrt 252 * sqrt (1 / 252) * zs ! ((t - 1) * N + j))))
         \<and> var_95 res = js_mul (Fin p) (js_abs (ToNumber
               (percentile (map (\<lambda>x. (x - p) / p) (map (\<lambda>fila. fila ! D) (simulaciones res))) 5)))
         \<and> var_percentaje res = js_mul (ToNumber
               (percentile (map (\<lambda>x. (x - p) / p) (map (\<lambda>fila. fila ! D) (simulaciones res))) 5)) (Fin 100)"
    using engine_run [OF assms(1,4,5,6,7) dr, of v] by blast
  have "r = Ok res" using ret unfolding post eng by simp
  then show ?thesis using dr props by blast
qed

lemma engine_dias_fraction:
  assumes "d \<notin> \<int>" "100 \<le> s" "s \<le> 10000"
  shows "engine p v d s rnd = Some (Inl RangeError)"
proof -
  have "d + 1 \<noteq> real_of_int \<lfloor>d + 1\<rfloor>"
  proof
    assume "d + 1 = real_of_int \<lfloor>d + 1\<rfloor>"
    then have "d = real_of_int (\<lfloor>d + 1\<rfloor> - 1)" by simp
    then have "d \<in> \<int>" by (metis Ints_of_int)
    then show False using assms(1) by simp
  qed
  then have new: "array_new (d + 1) = Inl RangeError" by (simp add: array_new_def)
  have "ToLength s \<noteq> 0" "\<not> 2 ^ 32 \<le> ToLength s"
    using ToLength_in_range [OF assms(2,3)] by blast+
  then have "array_from_length s (Inl RangeError :: js_error + real list) = Inl RangeError"
    by (simp add: array_from_length_def Let_def)
  then show ?thesis by (simp add: engine_def new)
qed

lemma engine_simulaciones_fraction:
  assumes "1 \<le> D" "D \<le> 365" "s \<notin> \<int>" "100 \<le> s" "s \<le> 10000" "eventually_nonzero rnd"
  shows "engine p v (real D) s rnd = Some (Inl TypeError)"
proof -
  define n where "n = nat \<lfloor>s\<rfloor>"
  have tl: "ToLength s = n"
    unfolding n_def by (rule ToLength_in_range(1) [OF assms(4,5)])
  have n: "n \<noteq> 0" "\<not> 2 ^ 32 \<le> n"
    using ToLength_in_range(2,3) [OF assms(4,5)] unfolding tl by blast+
  have lt: "real n < s"
    using ToLength_in_range(4) [OF assms(4,5,3)] unfolding tl .
  define arr0 where "arr0 = replicate n (replicate (Suc D) p)"
  have init: "array_from_length s
                (case array_new (real D + 1) of Inl e \<Rightarrow> Inl e | Inr n \<Rightarrow> Inr (replicate n p))
              = Inr arr0"
    using array_new_nat [OF assms(2)] n by (simp add: array_from_length_def tl arr0_def)
  have "trayectorias_loop rnd (v / 100 / sqrt 252) (1 / 252) 0 s 1 0 arr0 0 = Some (Inl TypeError)"
    using lt assms(6) by (intro trayectorias_loop_overrun) (simp_all add: arr0_def)
  then have "pasos_loop rnd (v / 100 / sqrt 252) (1 / 252) 0 (real D) s 1 arr0 0 = Some (Inl TypeError)"
    using assms(1) by (subst pasos_loop.simps) simp
  then show ?thesis unfolding engine_def Let_def init by simp
qed

text \<open>
  A request in range whose \<open>dias\<close> is not an integer, or whose \<open>dias\<close> is an integer and
  whose \<open>simulaciones\<close> is not, makes the engine raise: the response is the internal error.
\<close>

lemma POST_fraction_internal_error:
  assumes "0 < p" and "0 \<le> v" and "v \<le> 200" and "1 \<le> d" and "d \<le> 365"
    and "100 \<le> s" and "s \<le> 10000"
  shows "d \<notin> \<int> \<Longrightarrow> POST (request p v d s) rnd = Some InternalError"
    and "d \<in> \<int> \<Longrightarrow> s \<notin> \<int> \<Longrightarrow> eventually_nonzero rnd \<Longrightarrow>
           POST (request p v d s) rnd = Some InternalError"
proof -
  have post: "POST (request p v d s) rnd =
           (case engine p v d s rnd of
              None \<Rightarrow> None
            | Some (Inl e) \<Rightarrow> Some InternalError
            | Some (Inr res) \<Rightarrow> Some (Ok res))"
    using assms by (rule POST_request_valid)
  show "POST (request p v d s) rnd = Some InternalError" if "d \<notin> \<int>"
    using engine_dias_fraction [OF that assms(6,7)] by (simp add: post)
  show "POST (request p v d s) rnd = Some InternalError"
    if "d \<in> \<int>" and "s \<notin> \<int>" and "eventually_nonzero rnd"
  proof -
    from that(1) obtain z :: int where z: "d = real_of_int z" by (auto elim: Ints_cases)
    then have z1: "1 \<le> z" and z2: "z \<le> 365" using assms(4,5) by simp_all
    define D where "D = nat z"
    have d: "d = real D" using z z1 by (simp add: D_def)
    have "1 \<le> D" "D \<le> 365" using z1 z2 by (simp_all add: D_def)
    then have "engine p v (real D) s rnd = Some (Inl TypeError)"
      using that(2,3) assms(6,7) by (intro engine_simulaciones_fraction)
    then show ?thesis using post unfolding d by simp
  qed
qed

lemma recurrence_positive:
  fixes row :: "real list"
  assumes "0 < row ! 0"
    and "\<forall>t. 1 \<le> t \<and> t \<le> D \<longrightarrow> row ! t = row ! (t - 1) * exp (c + g t)"
  shows "t \<le> D \<Longrightarrow> 0 < row ! t"
proof (induction t)
  case 0
  show ?case using assms(1) .
next
  case (Suc t)
  then have "0 < row ! t" by simp
  moreover have "1 \<le> Suc t \<and> Suc t \<le> D" using Suc.prems by simp
  then have "row ! Suc t = row ! (Suc t - 1) * exp (c + g (Suc t))"
    using assms(2) by blast
  ultimately show ?case by simp
qed

subsection \<open>Concrete inputs\<close>

lemma odd_half_not_int:
  assumes "odd (n :: int)"
  shows "real_of_int n / 2 \<notin> \<int>"
proof
  assume "real_of_int n / 2 \<in> \<int>"
  then obtain m :: int where "real_of_int n / 2 = real_of_int m" by (auto elim: Ints_cases)
  then have "real_of_int n = real_of_int (2 * m)" by simp
  then have "n = 2 * m" by (simp only: of_int_eq_iff)
  then show False using assms by simp
qed

lemma three_halves_not_int: "(3 / 2 :: real) \<notin> \<int>"
  using odd_half_not_int [of 3] by simp



section \<open>The claims\<close>

text \<open>
  In the statements below a valid request is \<open>request p v (real D) (real N)\<close> with
  \<open>0 < p\<close>, \<open>0 \<le> v \<le> 200\<close>, \<open>1 \<le> D \<le> 365\<close> and \<open>100 \<le> N \<le> 10000\<close>. The handler
  returns on it for every random source that does not return zero forever, and the
  properties of the result hold for every random source on which it returns.
\<close>

text \<open>
  Claim C1. For every valid request the handler returns a result whose trajectory
  matrix has exactly \<open>N\<close> rows, every row has length \<open>D + 1\<close>, entry 0 of every row is
  the current price \<open>p\<close>, and every entry is strictly positive.
\<close>

theorem trajectory_matrix_shape:
  assumes "0 < p" and "0 \<le> v" and "v \<le> 200" and "1 \<le> D" and "D \<le> 365"
    and "100 \<le> N" and "N \<le> 10000"
  shows "(eventually_nonzero rnd \<longrightarrow>
            (\<exists>res. POST (request p v (real D) (real N)) rnd = Some (Ok res)))
       \<and> (\<forall>r. POST (request p v (real D) (real N)) rnd = Some r \<longrightarrow>
            (\<exists>res. r = Ok res
               \<and> length (simulaciones res) = N
               \<and> (\<forall>row \<in> set (simulaciones res).
                     length row = D + 1 \<and> row ! 0 = p \<and> (\<forall>x \<in> set row. 0 < x))))"
proof (intro conjI impI allI)
  assume "eventually_nonzero rnd"
  with assms show "\<exists>res. POST (request p v (real D) (real N)) rnd = Some (Ok res)"
    by (rule POST_valid_returns)
next
  fix r
  assume ret: "POST (request p v (real D) (real N)) rnd = Some r"
  obtain res zs k' where r: "r = Ok res"
    and len: "length (simulaciones res) = N"
    and rows: "\<forall>j<N. length (simulaciones res ! j) = Suc D
                \<and> simulaciones res ! j ! 0 = p
                \<and> (\<forall>t. 1 \<le> t \<and> t \<le> D \<longrightarrow>
                      simulaciones res ! j ! t = simulaciones res ! j ! (t - 1) *
                        exp ((0 - 0.5 * (v / 100 / sqrt 252) * (v / 100 / sqrt 252)) * (1 / 252)
                             + v / 100 / sqrt 252 * sqrt (1 / 252) * zs ! ((t - 1) * N + j)))"
    using POST_valid_result [OF assms ret] by blast
  have "length row = D + 1 \<and> row ! 0 = p \<and> (\<forall>x \<in> set row. 0 < x)"
    if "row \<in> set (simulaciones res)" for row
  proof -
    from that obtain j where "j < length (simulaciones res)" and row: "row = simulaciones res ! j"
      unfolding in_set_conv_nth by blast
    then have j: "j < N" using len by simp
    have spec: "length row = Suc D
                \<and> row ! 0 = p
                \<and> (\<forall>t. 1 \<le> t \<and> t \<le> D \<longrightarrow>
                      row ! t = row ! (t - 1) *
                        exp ((0 - 0.5 * (v / 100 / sqrt 252) * (v / 100 / sqrt 252)) * (1 / 252)
                             + v / 100 / sqrt 252 * sqrt (1 / 252) * zs ! ((t - 1) * N + j)))"
      unfolding row using rows j by blast
    have l: "length row = Suc D" using spec by (rule conjunct1)
    have z: "row ! 0 = p" using spec by blast
    have rec: "\<forall>t. 1 \<le> t \<and> t \<le> D \<longrightarrow> row ! t = row ! (t - 1) *
                 exp ((0 - 0.5 * (v / 100 / sqrt 252) * (v / 100 / sqrt 252)) * (1 / 252)
                      + v / 100 / sqrt 252 * sqrt (1 / 252) * zs ! ((t - 1) * N + j))"
      using spec by blast
    have "0 < x" if "x \<in> set row" for x
    proof -
      from that obtain t where "t < length row" and x: "x = row ! t"
        unfolding in_set_conv_nth by blast
      then have t: "t < Suc D" using l by simp
      have z0: "0 < row ! 0" using z assms(1) by simp
      have "t \<le> D" using t by simp
      then have "0 < row ! t"
        by (rule recurrence_positive [OF z0 rec])
      then show ?thesis using x by simp
    qed
    then show ?thesis using l z by simp
  qed
  then show "\<exists>res. r = Ok res
               \<and> length (simulaciones res) = N
               \<and> (\<forall>row \<in> set (simulaciones res).
                     length row = D + 1 \<and> row ! 0 = p \<and> (\<forall>x \<in> set row. 0 < x))"
    using r len by blast
qed

theorem trajectory_matrix_shape_witness:
  "\<exists>res. POST (request 100 20 (real 1) (real 100)) (constant_rng (1 / 2)) = Some (Ok res)
           \<and> length (simulaciones res) = 100
           \<and> (\<forall>row \<in> set (simulaciones res).
                 length row = 1 + 1 \<and> row ! 0 = 100 \<and> (\<forall>x \<in> set row. 0 < x))"
proof -
  have e: "eventually_nonzero (constant_rng (1 / 2))"
    by (simp add: eventually_nonzero_constant)
  have "(eventually_nonzero (constant_rng (1 / 2)) \<longrightarrow>
            (\<exists>res. POST (request 100 20 (real 1) (real 100)) (constant_rng (1 / 2)) = Some (Ok res)))
       \<and> (\<forall>r. POST (request 100 20 (real 1) (real 100)) (constant_rng (1 / 2)) = Some r \<longrightarrow>
            (\<exists>res. r = Ok res
               \<and> length (simulaciones res) = 100
               \<and> (\<forall>row \<in> set (simulaciones res).
                     length row = 1 + 1 \<and> row ! 0 = 100 \<and> (\<forall>x \<in> set row. 0 < x))))"
    by (rule trajectory_matrix_shape) simp_all
  with e show ?thesis by blast
qed

text \<open>
  Claim C2. For every valid request, every trajectory \<open>i\<close> and every step \<open>t\<close> from 1
  to \<open>D\<close>, the price at \<open>t\<close> is the price at \<open>t - 1\<close> times
  \<open>exp ((0 - 0.5 * dailyVol\<^sup>2) * deltaT + dailyVol * sqrt deltaT * z)\<close> with
  \<open>dailyVol = (v / 100) / sqrt 252\<close> and \<open>deltaT = 1 / 252\<close>. The draw \<open>z\<close> is its own
  call of \<open>gaussianRandom\<close>: the handler makes \<open>D * N\<close> calls, and the cell of
  trajectory \<open>i\<close> at step \<open>t\<close> takes the result of call number \<open>(t - 1) * N + i\<close>.
\<close>

theorem gbm_step_recurrence:
  assumes "0 < p" and "0 \<le> v" and "v \<le> 200" and "1 \<le> D" and "D \<le> 365"
    and "100 \<le> N" and "N \<le> 10000"
  shows "(eventually_nonzero rnd \<longrightarrow>
            (\<exists>res. POST (request p v (real D) (real N)) rnd = Some (Ok res)))
       \<and> (\<forall>r. POST (request p v (real D) (real N)) rnd = Some r \<longrightarrow>
            (\<exists>res zs k'. r = Ok res
               \<and> draws rnd 0 (D * N) = Some (zs, k')
               \<and> (let dailyVol = (v / 100) / sqrt 252; deltaT = 1 / 252
                  in \<forall>i<N. \<forall>t\<in>{1..D}.
                       simulaciones res ! i ! t = simulaciones res ! i ! (t - 1) *
                         exp ((0 - 0.5 * dailyVol\<^sup>2) * deltaT
                              + dailyVol * sqrt deltaT * zs ! ((t - 1) * N + i)))))"
proof (intro conjI impI allI)
  assume "eventually_nonzero rnd"
  with assms show "\<exists>res. POST (request p v (real D) (real N)) rnd = Some (Ok res)"
    by (rule POST_valid_returns)
next
  fix r
  assume ret: "POST (request p v (real D) (real N)) rnd = Some r"
  obtain res zs k' where r: "r = Ok res"
    and dr: "draws rnd 0 (D * N) = Some (zs, k')"
    and rows: "\<forall>j<N. length (simulaciones res ! j) = Suc D
                \<and> simulaciones res ! j ! 0 = p
                \<and> (\<forall>t. 1 \<le> t \<and> t \<le> D \<longrightarrow>
                      simulaciones res ! j ! t = simulaciones res ! j ! (t - 1) *
                        exp ((0 - 0.5 * (v / 100 / sqrt 252) * (v / 100 / sqrt 252)) * (1 / 252)
                             + v / 100 / sqrt 252 * sqrt (1 / 252) * zs ! ((t - 1) * N + j)))"
    using POST_valid_result [OF assms ret] by blast
  have "simulaciones res ! i ! t = simulaciones res ! i ! (t - 1) *
          exp ((0 - 0.5 * (v / 100 / sqrt 252)\<^sup>2) * (1 / 252)
               + v / 100 / sqrt 252 * sqrt (1 / 252) * zs ! ((t - 1) * N + i))"
    if "i < N" "t \<in> {1..D}" for i t
  proof -
    have "1 \<le> t \<and> t \<le> D" using that(2) by simp
    then have "simulaciones res ! i ! t = simulaciones res ! i ! (t - 1) *
                        exp ((0 - 0.5 * (v / 100 / sqrt 252) * (v / 100 / sqrt 252)) * (1 / 252)
                             + v / 100 / sqrt 252 * sqrt (1 / 252) * zs ! ((t - 1) * N + i))"
      using rows that(1) by blast
    then show ?thesis by (simp only: power2_eq_square mult.assoc)
  qed
  then show "\<exists>res zs k'. r = Ok res
               \<and> draws rnd 0 (D * N) = Some (zs, k')
               \<and> (let dailyVol = (v / 100) / sqrt 252; deltaT = 1 / 252
                  in \<forall>i<N. \<forall>t\<in>{1..D}.
                       simulaciones res ! i ! t = simulaciones res ! i ! (t - 1) *
                         exp ((0 - 0.5 * dailyVol\<^sup>2) * deltaT
                              + dailyVol * sqrt deltaT * zs ! ((t - 1) * N + i)))"
    unfolding Let_def using r dr by blast
qed

theorem gbm_step_recurrence_witness:
  "\<exists>res zs k'. POST (request 100 20 (real 1) (real 100)) (constant_rng (1 / 2)) = Some (Ok res)
           \<and> draws (constant_rng (1 / 2)) 0 (1 * 100) = Some (zs, k')
           \<and> (let dailyVol = (20 / 100) / sqrt 252; deltaT = 1 / 252
              in \<forall>i<100. \<forall>t\<in>{1..1}.
                   simulaciones res ! i ! t = simulaciones res ! i ! (t - 1) *
                     exp ((0 - 0.5 * dailyVol\<^sup>2) * deltaT
                          + dailyVol * sqrt deltaT * zs ! ((t - 1) * 100 + i)))"
proof -
  have e: "eventually_nonzero (constant_rng (1 / 2))"
    by (simp add: eventually_nonzero_constant)
  have "(eventually_nonzero (constant_rng (1 / 2)) \<longrightarrow>
            (\<exists>res. POST (request 100 20 (real 1) (real 100)) (constant_rng (1 / 2)) = Some (Ok res)))
       \<and> (\<forall>r. POST (request 100 20 (real 1) (real 100)) (constant_rng (1 / 2)) = Some r \<longrightarrow>
            (\<exists>res zs k'. r = Ok res
               \<and> draws (constant_rng (1 / 2)) 0 (1 * 100) = Some (zs, k')
               \<and> (let dailyVol = (20 / 100) / sqrt 252; deltaT = 1 / 252
                  in \<forall>i<100. \<forall>t\<in>{1..1}.
                       simulaciones res ! i ! t = simulaciones res ! i ! (t - 1) *
                         exp ((0 - 0.5 * dailyVol\<^sup>2) * deltaT
                              + dailyVol * sqrt deltaT * zs ! ((t - 1) * 100 + i)))))"
    by (rule gbm_step_recurrence) simp_all
  with e show ?thesis by blast
qed



text \<open>
  Claim C4. For every valid request the result's VaR amount is the current price times
  the absolute value of the 5th percentile \<open>q\<close> of the terminal relative returns, so it
  is never negative, and the VaR percentage is \<open>q * 100\<close>, with the sign of \<open>q\<close>.
\<close>

theorem var_amount_and_percentage:
  assumes "0 < p" and "0 \<le> v" and "v \<le> 200" and "1 \<le> D" and "D \<le> 365"
    and "100 \<le> N" and "N \<le> 10000"
  shows "(eventually_nonzero rnd \<longrightarrow>
            (\<exists>res. POST (request p v (real D) (real N)) rnd = Some (Ok res)))
       \<and> (\<forall>r. POST (request p v (real D) (real N)) rnd = Some r \<longrightarrow>
            (\<exists>res q. r = Ok res
               \<and> percentile (map (\<lambda>fila. (fila ! D - p) / p) (simulaciones res)) 5 = Number (Fin q)
               \<and> var_95 res = Fin (p * \<bar>q\<bar>)
               \<and> 0 \<le> p * \<bar>q\<bar>
               \<and> var_percentaje res = Fin (q * 100)
               \<and> sgn (q * 100) = sgn q))"
proof (intro conjI impI allI)
  assume "eventually_nonzero rnd"
  with assms show "\<exists>res. POST (request p v (real D) (real N)) rnd = Some (Ok res)"
    by (rule POST_valid_returns)
next
  fix r
  assume ret: "POST (request p v (real D) (real N)) rnd = Some r"
  obtain res zs k' where r: "r = Ok res"
    and len: "length (simulaciones res) = N"
    and v95: "var_95 res = js_mul (Fin p) (js_abs (ToNumber
               (percentile (map (\<lambda>x. (x - p) / p) (map (\<lambda>fila. fila ! D) (simulaciones res))) 5)))"
    and vpc: "var_percentaje res = js_mul (ToNumber
               (percentile (map (\<lambda>x. (x - p) / p) (map (\<lambda>fila. fila ! D) (simulaciones res))) 5)) (Fin 100)"
    using POST_valid_result [OF assms ret] by blast
  let ?cambios = "map (\<lambda>fila. (fila ! D - p) / p) (simulaciones res)"
  have c: "map (\<lambda>x. (x - p) / p) (map (\<lambda>fila. fila ! D) (simulaciones res)) = ?cambios"
    by (simp add: comp_def)
  have "?cambios \<noteq> []" using len assms(6) by auto
  then obtain q where q: "percentile ?cambios 5 = Number (Fin q)"
    using percentile_finite [of ?cambios 5] by auto
  have "var_95 res = Fin (p * \<bar>q\<bar>)"
    using v95 by (simp only: c q ToNumber.simps js_abs.simps js_mul.simps)
  moreover have "var_percentaje res = Fin (q * 100)"
    using vpc by (simp only: c q ToNumber.simps js_mul.simps)
  moreover have "0 \<le> p * \<bar>q\<bar>" using assms(1) by simp
  moreover have "sgn (q * 100) = sgn q" by (simp add: sgn_mult)
  ultimately show "\<exists>res q. r = Ok res
               \<and> percentile (map (\<lambda>fila. (fila ! D - p) / p) (simulaciones res)) 5 = Number (Fin q)
               \<and> var_95 res = Fin (p * \<bar>q\<bar>)
               \<and> 0 \<le> p * \<bar>q\<bar>
               \<and> var_percentaje res = Fin (q * 100)
               \<and> sgn (q * 100) = sgn q"
    using r q by blast
qed

theorem var_amount_and_percentage_witness:
  "\<exists>res q. POST (request 100 20 (real 1) (real 100)) (constant_rng (1 / 2)) = Some (Ok res)
           \<and> percentile (map (\<lambda>fila. (fila ! 1 - 100) / 100) (simulaciones res)) 5 = Number (Fin q)
           \<and> var_95 res = Fin (100 * \<bar>q\<bar>)
           \<and> 0 \<le> 100 * \<bar>q\<bar>
           \<and> var_percentaje res = Fin (q * 100)
           \<and> sgn (q * 100) = sgn q"
proof -
  have e: "eventually_nonzero (constant_rng (1 / 2))"
    by (simp add: eventually_nonzero_constant)
  have "(eventually_nonzero (constant_rng (1 / 2)) \<longrightarrow>
            (\<exists>res. POST (request 100 20 (real 1) (real 100)) (constant_rng (1 / 2)) = Some (Ok res)))
       \<and> (\<forall>r. POST (request 100 20 (real 1) (real 100)) (constant_rng (1 / 2)) = Some r \<longrightarrow>
            (\<exists>res q. r = Ok res
               \<and> percentile (map (\<lambda>fila. (fila ! 1 - 100) / 100) (simulaciones res)) 5 = Number (Fin q)
               \<and> var_95 res = Fin (100 * \<bar>q\<bar>)
               \<and> 0 \<le> 100 * \<bar>q\<bar>
               \<and> var_percentaje res = Fin (q * 100)
               \<and> sgn (q * 100) = sgn q))"
    by (rule var_amount_and_percentage) simp_all
  with e show ?thesis by blast
qed

text \<open>
  Claim C5. With the other three fields in range, the validation rejects a current
  price of 0, accepts a volatility of 200 and rejects 201, rejects 0 and 366 days, and
  rejects 99 and 10001 simulations.
\<close>

theorem validate_boundaries:
  assumes "0 < p" and "0 \<le> v" and "v \<le> 200" and "1 \<le> d" and "d \<le> 365"
    and "100 \<le> s" and "s \<le> 10000"
  shows "validate (request 0 v d s) = Inl PrecioInvalido
       \<and> validate (request p 200 d s) = Inr (Fin p, Fin 200, Fin d, Fin s)
       \<and> validate (request p 201 d s) = Inl VolatilidadInvalida
       \<and> validate (request p v 0 s) = Inl DiasInvalidos
       \<and> validate (request p v 366 s) = Inl DiasInvalidos
       \<and> validate (request p v d 99) = Inl SimulacionesInvalidas
       \<and> validate (request p v d 10001) = Inl SimulacionesInvalidas"
  using assms by (simp add: validate_request)

theorem validate_boundaries_witness:
  "validate (request 0 20 30 1000) = Inl PrecioInvalido
   \<and> validate (request 100 200 30 1000) = Inr (Fin 100, Fin 200, Fin 30, Fin 1000)
   \<and> validate (request 100 201 30 1000) = Inl VolatilidadInvalida
   \<and> validate (request 100 20 0 1000) = Inl DiasInvalidos
   \<and> validate (request 100 20 366 1000) = Inl DiasInvalidos
   \<and> validate (request 100 20 30 99) = Inl SimulacionesInvalidas
   \<and> validate (request 100 20 30 10001) = Inl SimulacionesInvalidas"
  by (rule validate_boundaries [of 100 20 30 1000]) simp_all

text \<open>
  Claim C6, as stated: every request whose \<open>dias\<close> or \<open>simulaciones\<close> is not an integer
  is rejected by the validation. It fails for \<open>dias = 1.5\<close>: the validation accepts the
  request, and the response is the internal error of the engine.
\<close>

theorem validate_accepts_fractional_dias:
  "(3 / 2 :: real) \<notin> \<int>
   \<and> validate (request 100 20 (3 / 2) 1000) = Inr (Fin 100, Fin 20, Fin (3 / 2), Fin 1000)
   \<and> POST (request 100 20 (3 / 2) 1000) (constant_rng (1 / 2)) = Some InternalError"
proof -
  have frac: "(3 / 2 :: real) \<notin> \<int>"
    by (rule three_halves_not_int)
  have "POST (request 100 20 (3 / 2) 1000) (constant_rng (1 / 2)) = Some InternalError"
    using frac by (intro POST_fraction_internal_error(1)) simp_all
  then show ?thesis using frac by (simp add: validate_request)
qed

text \<open>
  Claim C6, amended. The validation checks the type and the range of \<open>dias\<close> and
  \<open>simulaciones\<close> and nothing else: a request of four numbers is rejected exactly when one
  of them is out of its range, so a request in range passes the validation and reaches
  the engine whether or not \<open>dias\<close> and \<open>simulaciones\<close> are integers.
\<close>

theorem validate_ignores_integrality:
  "(0 < p \<and> 0 \<le> v \<and> v \<le> 200 \<and> 1 \<le> d \<and> d \<le> 365 \<and> 100 \<le> s \<and> s \<le> 10000 \<longrightarrow>
      validate (request p v d s) = Inr (Fin p, Fin v, Fin d, Fin s)
      \<and> (\<forall>r. POST (request p v d s) rnd \<noteq> Some (Rejected r)))
   \<and> (\<not> (0 < p \<and> 0 \<le> v \<and> v \<le> 200 \<and> 1 \<le> d \<and> d \<le> 365 \<and> 100 \<le> s \<and> s \<le> 10000) \<longrightarrow>
      (\<exists>r. validate (request p v d s) = Inl r \<and> POST (request p v d s) rnd = Some (Rejected r)))"
proof (intro conjI impI)
  assume "0 < p \<and> 0 \<le> v \<and> v \<le> 200 \<and> 1 \<le> d \<and> d \<le> 365 \<and> 100 \<le> s \<and> s \<le> 10000"
  then show "validate (request p v d s) = Inr (Fin p, Fin v, Fin d, Fin s)"
    by (simp add: validate_request)
  then show "\<forall>r. POST (request p v d s) rnd \<noteq> Some (Rejected r)"
    by (simp add: POST_Rejected_iff)
next
  assume "\<not> (0 < p \<and> 0 \<le> v \<and> v \<le> 200 \<and> 1 \<le> d \<and> d \<le> 365 \<and> 100 \<le> s \<and> s \<le> 10000)"
  then have "\<exists>r. validate (request p v d s) = Inl r"
    by (auto simp: validate_request)
  then show "\<exists>r. validate (request p v d s) = Inl r \<and> POST (request p v d s) rnd = Some (Rejected r)"
    by (simp add: POST_Rejected_iff)
qed

theorem validate_ignores_integrality_witness:
  "validate (request 100 20 (3 / 2) (201 / 2)) = Inr (Fin 100, Fin 20, Fin (3 / 2), Fin (201 / 2))
   \<and> (\<forall>r. POST (request 100 20 (3 / 2) (201 / 2)) (constant_rng (1 / 2)) \<noteq> Some (Rejected r))
   \<and> (\<exists>r. validate (request 100 20 (733 / 2) (201 / 2)) = Inl r
          \<and> POST (request 100 20 (733 / 2) (201 / 2)) (constant_rng (1 / 2)) = Some (Rejected r))"
  using validate_ignores_integrality [of 100 20 "3 / 2" "201 / 2" "constant_rng (1 / 2)"]
    validate_ignores_integrality [of 100 20 "733 / 2" "201 / 2" "constant_rng (1 / 2)"]
  by simp

text \<open>
  Claim C7. The checks run in the order type check, current price, volatility, days,
  simulations, and the rejection returned is that of the first check that fails,
  whatever the later fields hold; a request with current price 0 and 0 days is rejected
  for its price.
\<close>

theorem validate_first_violation:
  "(typeof (precio_actual b) \<noteq> ''number'' \<or> typeof (volatilidad b) \<noteq> ''number'' \<or>
    typeof (dias b) \<noteq> ''number'' \<or> typeof (body.simulaciones b) \<noteq> ''number''
      \<longrightarrow> validate b = Inl ParametrosInvalidos)
   \<and> (typeof (precio_actual b) = ''number'' \<and> typeof (volatilidad b) = ''number'' \<and>
      typeof (dias b) = ''number'' \<and> typeof (body.simulaciones b) = ''number'' \<longrightarrow>
        (js_le (number_of (precio_actual b)) (Fin 0) \<longrightarrow> validate b = Inl PrecioInvalido)
      \<and> (\<not> js_le (number_of (precio_actual b)) (Fin 0) \<longrightarrow>
          (js_lt (number_of (volatilidad b)) (Fin 0) \<or> js_gt (number_of (volatilidad b)) (Fin 200)
             \<longrightarrow> validate b = Inl VolatilidadInvalida)
        \<and> (\<not> (js_lt (number_of (volatilidad b)) (Fin 0) \<or> js_gt (number_of (volatilidad b)) (Fin 200)) \<longrightarrow>
            (js_lt (number_of (dias b)) (Fin 1) \<or> js_gt (number_of (dias b)) (Fin 365)
               \<longrightarrow> validate b = Inl DiasInvalidos)
          \<and> (\<not> (js_lt (number_of (dias b)) (Fin 1) \<or> js_gt (number_of (dias b)) (Fin 365)) \<longrightarrow>
              (js_lt (number_of (body.simulaciones b)) (Fin 100) \<or>
               js_gt (number_of (body.simulaciones b)) (Fin 10000)
                 \<longrightarrow> validate b = Inl SimulacionesInvalidas)))))
   \<and> validate (request 0 v 0 s) = Inl PrecioInvalido"
proof (intro conjI)
  show "validate (request 0 v 0 s) = Inl PrecioInvalido"
    by (simp add: validate_request)
qed (simp_all add: validate_def Let_def)

theorem validate_first_violation_witness:
  "validate \<lparr>precio_actual = JString ''100'', volatilidad = JNumber (Fin 500),
             dias = JNumber (Fin 0), body.simulaciones = JNumber (Fin 5)\<rparr> = Inl ParametrosInvalidos
   \<and> validate (request 0 500 0 5) = Inl PrecioInvalido
   \<and> validate (request 100 500 0 5) = Inl VolatilidadInvalida
   \<and> validate (request 100 20 0 5) = Inl DiasInvalidos
   \<and> validate (request 100 20 30 5) = Inl SimulacionesInvalidas
   \<and> validate (request 0 20 0 1000) = Inl PrecioInvalido"
  using validate_first_violation [of "\<lparr>precio_actual = JString ''100'', volatilidad = JNumber (Fin 500),
             dias = JNumber (Fin 0), body.simulaciones = JNumber (Fin 5)\<rparr>"]
    validate_first_violation [of "request 0 500 0 5"]
    validate_first_violation [of "request 100 500 0 5"]
    validate_first_violation [of "request 100 20 0 5"]
    validate_first_violation [of "request 100 20 30 5"]
    validate_first_violation [of _ 20 1000]
  by (simp add: request_def js_gt_def)

text \<open>
  Claim C8. On the empty list \<open>percentile\<close> returns \<^verbatim>\<open>NaN\<close>, a value and not a fault. On a
  non-empty list it returns from the interpolation code after the guard, and for
  \<open>0 \<le> p \<le> 100\<close> that result is a finite number.
\<close>

theorem percentile_empty_is_NaN:
  "percentile [] p = Number NaN
   \<and> (xs \<noteq> [] \<longrightarrow>
        percentile xs p =
          (let sorted = sort xs;
               pos = (p / 100) * (real (length xs) - 1);
               lower = \<lfloor>pos\<rfloor>;
               upper = \<lceil>pos\<rceil>
           in if lower = upper then array_get sorted lower
              else Number (js_add (js_mul (ToNumber (array_get sorted lower)) (Fin (1 - (pos - real_of_int lower))))
                                  (js_mul (ToNumber (array_get sorted upper)) (Fin (pos - real_of_int lower))))))
   \<and> (xs \<noteq> [] \<and> 0 \<le> p \<and> p \<le> 100 \<longrightarrow> (\<exists>q. percentile xs p = Number (Fin q)))"
proof (intro conjI impI)
  show "percentile [] p = Number NaN" by (simp add: percentile_def)
next
  assume "xs \<noteq> []"
  then show "percentile xs p =
          (let sorted = sort xs;
               pos = (p / 100) * (real (length xs) - 1);
               lower = \<lfloor>pos\<rfloor>;
               upper = \<lceil>pos\<rceil>
           in if lower = upper then array_get sorted lower
              else Number (js_add (js_mul (ToNumber (array_get sorted lower)) (Fin (1 - (pos - real_of_int lower))))
                                  (js_mul (ToNumber (array_get sorted upper)) (Fin (pos - real_of_int lower)))))"
    by (rule percentile_nonempty)
next
  assume "xs \<noteq> [] \<and> 0 \<le> p \<and> p \<le> 100"
  then show "\<exists>q. percentile xs p = Number (Fin q)"
    using percentile_finite by blast
qed

theorem percentile_empty_is_NaN_witness:
  "percentile [] 5 = Number NaN \<and> percentile [7] 5 = Number (Fin 7)
   \<and> percentile [13, 9, 7, 11] 50 = Number (Fin 10)"
  using percentile_empty_is_NaN [of 5 "[7]"] percentile_empty_is_NaN [of 50 "[13, 9, 7, 11]"]
  by (simp add: array_get_def)

text \<open>
  Claim C9, as stated: \<open>mean\<close> and \<open>percentile\<close> give the same result on a list and on
  any permutation of it. It fails for \<open>mean\<close>: in \<open>[1e16, 1, -1e16, 2]\<close> the addition
  \<open>1e16 + 1\<close> rounds to \<open>1e16\<close> and the mean is \<open>0.5\<close>, in \<open>[1e16, -1e16, 1, 2]\<close> no addition
  rounds and the mean is \<open>0.75\<close>.
\<close>

theorem mean_depends_on_order:
  "mset [10000000000000000, - 10000000000000000, 1, 2 :: real]
     = mset [10000000000000000, 1, - 10000000000000000, 2]
   \<and> mean [10000000000000000, 1, - 10000000000000000, 2] = Fin (1 / 2)
   \<and> mean [10000000000000000, - 10000000000000000, 1, 2] = Fin (3 / 4)
   \<and> mean [10000000000000000, - 10000000000000000, 1, 2]
       \<noteq> mean [10000000000000000, 1, - 10000000000000000, 2]"
proof -
  have one: "to_double 1 = Fin 1" using to_double_of_int [of 1] by simp
  have two: "to_double 2 = Fin 2" using to_double_of_int [of 2] by simp
  have three: "to_double 3 = Fin 3" using to_double_of_int [of 3] by simp
  have half: "to_double (2 / 4) = Fin (1 / 2)" using to_double_dyadic [of 2] by simp
  have three_quarters: "to_double (3 / 4) = Fin (3 / 4)" using to_double_dyadic [of 3] by simp
  have zero: "to_double 0 = Fin 0" by (simp add: to_double_def)
  have s1: "foldl (\<lambda>sum v. js_add_double sum (Fin v)) (Fin 0)
              [10000000000000000, 1, - 10000000000000000, 2] = Fin 2"
    by (simp add: js_add_double_def to_double_1e16 to_double_1e16_plus_1 zero two)
  have s2: "foldl (\<lambda>sum v. js_add_double sum (Fin v)) (Fin 0)
              [10000000000000000, - 10000000000000000, 1, 2] = Fin 3"
    by (simp add: js_add_double_def to_double_1e16 zero one three)
  have a: "mean [10000000000000000, 1, - 10000000000000000, 2] = Fin (1 / 2)"
    unfolding mean_def s1 using half by (simp add: js_div_length_def)
  have b: "mean [10000000000000000, - 10000000000000000, 1, 2] = Fin (3 / 4)"
    unfolding mean_def s2 using three_quarters by (simp add: js_div_length_def)
  have "mset [10000000000000000, - 10000000000000000, 1, 2 :: real]
          = mset [10000000000000000, 1, - 10000000000000000, 2]"
    by simp
  then show ?thesis using a b by simp
qed

text \<open>
  Claim C9, amended. \<open>percentile\<close> gives the same result on a list and on any permutation
  of it. \<open>mean\<close> does so when no addition of its sum rounds, on the list and on the
  permutation.
\<close>

theorem mean_percentile_permutation:
  assumes "mset ys = mset xs"
  shows "percentile ys p = percentile xs p
       \<and> (sums_exact 0 xs \<and> sums_exact 0 ys \<longrightarrow> mean ys = mean xs)"
proof -
  have len: "length ys = length xs" using assms by (rule mset_eq_length)
  have "sort ys = sort xs" using assms by (rule sort_permutation)
  then have pc: "percentile ys p = percentile xs p"
    by (simp add: percentile_def len)
  have sum: "sum_list ys = sum_list xs"
    using assms by (metis sum_mset_sum_list)
  have "mean ys = mean xs" if "sums_exact 0 xs" and "sums_exact 0 ys"
    using that by (simp add: mean_sums_exact sum len)
  with pc show ?thesis by simp
qed

theorem mean_percentile_permutation_witness:
  "mset [3, 1, 2 :: real] = mset [1, 2, 3]
   \<and> sums_exact 0 [1, 2, 3] \<and> sums_exact 0 [3, 1, 2]
   \<and> percentile [3, 1, 2] 50 = percentile [1, 2, 3] 50 \<and> mean [3, 1, 2] = mean [1, 2, 3]"
proof -
  have h: "mset [3, 1, 2 :: real] = mset [1, 2, 3]" by simp
  have d: "to_double 1 = Fin 1" "to_double 3 = Fin 3" "to_double 4 = Fin 4" "to_double 6 = Fin 6"
    using to_double_of_int [of 1] to_double_of_int [of 3] to_double_of_int [of 4]
      to_double_of_int [of 6]
    by simp_all
  have e: "sums_exact 0 [1, 2, 3]" "sums_exact 0 [3, 1, 2]" by (simp_all add: d)
  show ?thesis using h e mean_percentile_permutation [OF h, of 50] by blast
qed

text \<open>
  Claim C10. A field that is \<^verbatim>\<open>NaN\<close> has type number and fails no range comparison: when
  every field is \<^verbatim>\<open>NaN\<close> or a number in range, and at least one is \<^verbatim>\<open>NaN\<close>, the
  validation accepts the request and the engine is entered with the \<^verbatim>\<open>NaN\<close>.
\<close>

theorem validate_accepts_NaN:
  assumes "p = NaN \<or> (\<exists>x. p = Fin x \<and> 0 < x)"
    and "v = NaN \<or> (\<exists>x. v = Fin x \<and> 0 \<le> x \<and> x \<le> 200)"
    and "d = NaN \<or> (\<exists>x. d = Fin x \<and> 1 \<le> x \<and> x \<le> 365)"
    and "s = NaN \<or> (\<exists>x. s = Fin x \<and> 100 \<le> x \<and> x \<le> 10000)"
    and "p = NaN \<or> v = NaN \<or> d = NaN \<or> s = NaN"
  shows "typeof (JNumber NaN) = ''number''
       \<and> \<not> js_le NaN c \<and> \<not> js_lt NaN c \<and> \<not> js_gt NaN c
       \<and> validate \<lparr>precio_actual = JNumber p, volatilidad = JNumber v,
                    dias = JNumber d, body.simulaciones = JNumber s\<rparr> = Inr (p, v, d, s)
       \<and> POST \<lparr>precio_actual = JNumber p, volatilidad = JNumber v,
                dias = JNumber d, body.simulaciones = JNumber s\<rparr> rnd = Some EngineOnSpecialValue"
proof -
  let ?b = "\<lparr>precio_actual = JNumber p, volatilidad = JNumber v,
                    dias = JNumber d, body.simulaciones = JNumber s\<rparr>"
  have gt: "\<not> js_gt NaN c" by (cases c) (simp_all add: js_gt_def)
  have 1: "\<not> js_le p (Fin 0)" using assms(1) by auto
  have 2: "\<not> js_lt v (Fin 0)" "\<not> js_gt v (Fin 200)" using assms(2) by (auto simp: js_gt_def)
  have 3: "\<not> js_lt d (Fin 1)" "\<not> js_gt d (Fin 365)" using assms(3) by (auto simp: js_gt_def)
  have 4: "\<not> js_lt s (Fin 100)" "\<not> js_gt s (Fin 10000)" using assms(4) by (auto simp: js_gt_def)
  have val: "validate ?b = Inr (p, v, d, s)"
    using 1 2 3 4 by (simp add: validate_def)
  have "POST ?b rnd = Some EngineOnSpecialValue"
    unfolding POST_def val using assms(5) by (auto split: jsnum.splits)
  then show ?thesis using val gt by simp
qed

theorem validate_accepts_NaN_witness:
  "validate \<lparr>precio_actual = JNumber NaN, volatilidad = JNumber (Fin 20),
             dias = JNumber (Fin 30), body.simulaciones = JNumber (Fin 1000)\<rparr>
     = Inr (NaN, Fin 20, Fin 30, Fin 1000)
   \<and> validate \<lparr>precio_actual = JNumber (Fin 100), volatilidad = JNumber NaN,
             dias = JNumber (Fin 30), body.simulaciones = JNumber (Fin 1000)\<rparr>
     = Inr (Fin 100, NaN, Fin 30, Fin 1000)
   \<and> validate \<lparr>precio_actual = JNumber (Fin 100), volatilidad = JNumber (Fin 20),
             dias = JNumber NaN, body.simulaciones = JNumber (Fin 1000)\<rparr>
     = Inr (Fin 100, Fin 20, NaN, Fin 1000)
   \<and> validate \<lparr>precio_actual = JNumber (Fin 100), volatilidad = JNumber (Fin 20),
             dias = JNumber (Fin 30), body.simulaciones = JNumber NaN\<rparr>
     = Inr (Fin 100, Fin 20, Fin 30, NaN)
   \<and> POST \<lparr>precio_actual = JNumber NaN, volatilidad = JNumber NaN,
             dias = JNumber NaN, body.simulaciones = JNumber NaN\<rparr> (constant_rng (1 / 2))
     = Some EngineOnSpecialValue"
  using validate_accepts_NaN [of NaN "Fin 20" "Fin 30" "Fin 1000"]
    validate_accepts_NaN [of "Fin 100" NaN "Fin 30" "Fin 1000"]
    validate_accepts_NaN [of "Fin 100" "Fin 20" NaN "Fin 1000"]
    validate_accepts_NaN [of "Fin 100" "Fin 20" "Fin 30" NaN]
    validate_accepts_NaN [of NaN NaN NaN NaN _ "constant_rng (1 / 2)"]
  by simp

end
